theory Spec2Isabelle
  imports Complex_Main "HOL-Library.AList"
begin

section \<open>Data model of \<open>newclasses.py\<close>\<close>

text \<open>
  Python objects have identity: a \<open>Player\<close> is shared by reference between the roster
  lists, the vote table and other players' \<open>votes_for\<close> fields, and a list object can be
  held by two attributes at once (\<open>self.alive = self.players\<close> in \<open>give_roles\<close>).
  The model therefore keeps an explicit store: \<open>Player\<close> objects and list objects live
  at addresses, and the attributes of the game hold addresses.

  A \<open>discord.User\<close> and a \<open>discord.Channel\<close> are opaque values of the chat library,
  compared by their id; they are modelled by that id.
\<close>

type_synonym discord_user = nat
type_synonym discord_channel = nat

type_synonym player_ref = nat
type_synonym list_ref = nat

text \<open>
  \<open>AbstractRole\<close> with its two subclasses. \<open>MafiaRole(name, game)\<close> has the role name
  \<open>"Mafia " + name\<close>, \<open>TownRole(game)\<close> has the role name \<open>"Townie"\<close>;
  \<open>__str__\<close> returns the role name. (\<open>win_condition\<close> is \<open>pass\<close> in both.)
\<close>

datatype role = MafiaRole string | TownRole

fun role_name :: "role \<Rightarrow> string" where
  "role_name (MafiaRole name) = ''Mafia '' @ name"
| "role_name TownRole = ''Townie''"

text \<open>\<open>str(p.role)\<close>; the attribute is \<open>None\<close> until a role is assigned.\<close>

fun str_role :: "role option \<Rightarrow> string" where
  "str_role None = ''None''"
| "str_role (Some r) = role_name r"

record Player =
  user :: discord_user
  role :: "role option"
  is_alive :: bool
  votes_for :: "player_ref option"
  is_no_lynch :: bool

text \<open>\<open>Player.__init__\<close>\<close>

definition Player_init :: "discord_user \<Rightarrow> Player" where
  "Player_init discord_user =
     \<lparr>user = discord_user, role = None, is_alive = True, votes_for = None,
      is_no_lynch = False\<rparr>"

text \<open>
  What \<open>client.send_message(channel, message)\<close> is called with. The destination is the
  general channel attribute (which is \<open>None\<close> before a game starts) or a user (a private
  message). The text keeps the format string's arguments; the constructor names the
  format string:
  \<^item> \<open>AlreadyOngoing\<close>: "There is a game already ongoing!"
  \<^item> \<open>Opening t\<close>: "A Mafia game has started! ... Joining period will last for t seconds."
  \<^item> \<open>AssigningRoles\<close>: "Assigning roles to players."
  \<^item> \<open>PMingRoles\<close>: "PM-ing roles to players."
  \<^item> \<open>YouAreA s\<close>: "You are a s."
  \<^item> \<open>YourAlliesAre us\<close>: "Your allies are " followed by the names of \<open>us\<close>
  \<^item> \<open>NotPartOfGame\<close>: "Sorry, you are not part of the current game."
  \<^item> \<open>YouAreDead u\<close>: "Sorry, <@u>. You're dead."
  \<^item> \<open>HaveToVoteForSomeone\<close>: "You have to vote for someone! (Or no-lynch!)"
  \<^item> \<open>ThatPlayerNotInGame\<close>: "That player is not in the game."
  \<^item> \<open>HaveToVoteForSomeoneAlive\<close>: "You have to vote for someone alive!"
  \<^item> \<open>VotedFor a b\<close>: "a voted for b!"
  \<^item> \<open>ChangedVoteTo a b\<close>: "a changed their vote to b!"
  \<^item> \<open>VotesNoLynch u\<close>: "<@u> votes no lynch!"
  \<^item> \<open>TheVotesAre rows n\<close>: the table printed by \<open>print_votes\<close>
  \<^item> \<open>HasBeenLynched u\<close>, \<open>HasBeenKilled u\<close>: "<@u> has been lynched!" / "... killed!"
  \<^item> \<open>VotedNoLynch\<close>: "The town has voted for no lynch!"
  \<^item> \<open>ItIsNow phase n\<close>: "It is now phase n."
\<close>

datatype destination = ToChannel "discord_channel option" | ToUser discord_user

datatype text_message =
    AlreadyOngoing
  | Opening int
  | AssigningRoles
  | PMingRoles
  | YouAreA string
  | YourAlliesAre "discord_user list"
  | NotPartOfGame
  | YouAreDead discord_user
  | HaveToVoteForSomeone
  | ThatPlayerNotInGame
  | HaveToVoteForSomeoneAlive
  | VotedFor discord_user discord_user
  | ChangedVoteTo discord_user discord_user
  | VotesNoLynch discord_user
  | TheVotesAre "(discord_user \<times> int \<times> discord_user list) list" int
  | HasBeenLynched discord_user
  | HasBeenKilled discord_user
  | VotedNoLynch
  | ItIsNow string int

text \<open>
  The game object together with the store. The first group of fields are the attributes
  of \<open>MafiaGame\<close>; the list attributes hold the address of a list object, the two
  dictionaries are association lists in insertion order. The second group is the store
  and the trace of what the game did to the outside: the messages handed to the client,
  in order, and the arguments of \<open>asyncio.sleep\<close>.
\<close>

record MafiaGame =
  timeout :: int
  is_accepting :: bool
  is_ongoing :: bool
  players :: list_ref
  townies :: list_ref
  mafia :: list_ref
  alive :: list_ref
  roles :: "(string \<times> role) list"
  day_num :: int
  day_phase :: string
  no_lynch :: int
  vote_table :: "(player_ref \<times> int) list"
  user_to_player :: "(discord_user \<times> player_ref) list"
  gen_channel :: "discord_channel option"
  player_heap :: "player_ref \<Rightarrow> Player"
  next_player :: player_ref
  list_heap :: "list_ref \<Rightarrow> player_ref list"
  next_list :: list_ref
  outbox :: "(destination \<times> text_message) list"
  slept :: "int list"

record discord_message =
  author :: discord_user
  content :: string
  mentions :: "discord_user list"
  channel :: discord_channel

datatype error = KeyError | ValueError | AssertionError

definition bind_error :: "error + 'a \<Rightarrow> ('a \<Rightarrow> error + 'b) \<Rightarrow> error + 'b" where
  "bind_error m f = (case m of Inl e \<Rightarrow> Inl e | Inr x \<Rightarrow> f x)"

subsection \<open>The store\<close>

text \<open>The list object an attribute points to.\<close>

definition players_list :: "MafiaGame \<Rightarrow> player_ref list" where
  "players_list g = list_heap g (players g)"

definition alive_list :: "MafiaGame \<Rightarrow> player_ref list" where
  "alive_list g = list_heap g (alive g)"

definition mafia_list :: "MafiaGame \<Rightarrow> player_ref list" where
  "mafia_list g = list_heap g (mafia g)"

definition townies_list :: "MafiaGame \<Rightarrow> player_ref list" where
  "townies_list g = list_heap g (townies g)"

text \<open>A list display or a call that returns a list creates a new list object.\<close>

definition new_list :: "MafiaGame \<Rightarrow> player_ref list \<Rightarrow> list_ref \<times> MafiaGame" where
  "new_list g xs =
     (next_list g,
      g\<lparr>list_heap := (list_heap g)(next_list g := xs), next_list := Suc (next_list g)\<rparr>)"

text \<open>Assignment to the fields of the \<open>Player\<close> object at an address.\<close>

definition set_is_alive :: "MafiaGame \<Rightarrow> player_ref \<Rightarrow> bool \<Rightarrow> MafiaGame" where
  "set_is_alive g p b = g\<lparr>player_heap := (player_heap g)(p := (player_heap g p)\<lparr>is_alive := b\<rparr>)\<rparr>"

definition set_is_no_lynch :: "MafiaGame \<Rightarrow> player_ref \<Rightarrow> bool \<Rightarrow> MafiaGame" where
  "set_is_no_lynch g p b =
     g\<lparr>player_heap := (player_heap g)(p := (player_heap g p)\<lparr>is_no_lynch := b\<rparr>)\<rparr>"

definition set_votes_for :: "MafiaGame \<Rightarrow> player_ref \<Rightarrow> player_ref option \<Rightarrow> MafiaGame" where
  "set_votes_for g p v =
     g\<lparr>player_heap := (player_heap g)(p := (player_heap g p)\<lparr>votes_for := v\<rparr>)\<rparr>"

definition set_role :: "MafiaGame \<Rightarrow> player_ref \<Rightarrow> role option \<Rightarrow> MafiaGame" where
  "set_role g p r = g\<lparr>player_heap := (player_heap g)(p := (player_heap g p)\<lparr>role := r\<rparr>)\<rparr>"

subsection \<open>Arithmetic of the standard library\<close>

text \<open>
  \<open>len(xs) / 2\<close> and \<open>num_players / 4\<close> are true divisions; on the list lengths a
  program can reach they are exact, so they are modelled over the reals.
  \<open>round\<close> rounds a half to the even neighbour.
\<close>

definition math_floor :: "real \<Rightarrow> int" where
  "math_floor x = \<lfloor>x\<rfloor>"

definition math_ceil :: "real \<Rightarrow> int" where
  "math_ceil x = \<lceil>x\<rceil>"

definition py_round :: "real \<Rightarrow> int" where
  "py_round x =
     (let f = \<lfloor>x\<rfloor>; d = x - of_int f
      in if d < 1 / 2 then f
         else if 1 / 2 < d then f + 1
         else if even f then f else f + 1)"

subsection \<open>\<open>str.split(" ")\<close> and \<open>int(s)\<close>\<close>

fun split_space :: "string \<Rightarrow> string list" where
  "split_space [] = [[]]"
| "split_space (c # cs) =
     (if c = CHR '' '' then [] # split_space cs
      else (case split_space cs of w # ws \<Rightarrow> (c # w) # ws | [] \<Rightarrow> [[c]]))"

definition is_digit :: "char \<Rightarrow> bool" where
  "is_digit c = (c \<in> set ''0123456789'')"

definition digit_val :: "char \<Rightarrow> int" where
  "digit_val c = int (of_char c) - 48"

definition is_space :: "char \<Rightarrow> bool" where
  "is_space c = (c \<in> {CHR '' '', CHR 0x09, CHR 0x0A, CHR 0x0B, CHR 0x0C, CHR 0x0D})"

text \<open>
  Decimal digits, a single underscore allowed between two digits. The caller has checked
  that the first character is a digit.
\<close>

fun py_digits :: "string \<Rightarrow> int \<Rightarrow> int option" where
  "py_digits [] acc = Some acc"
| "py_digits (c # cs) acc =
     (if is_digit c then py_digits cs (10 * acc + digit_val c)
      else if c = CHR ''_'' then
        (case cs of [] \<Rightarrow> None | d # _ \<Rightarrow> if is_digit d then py_digits cs acc else None)
      else None)"

text \<open>
  \<open>int(s)\<close> on an ASCII string: surrounding whitespace is stripped, a sign is optional;
  \<open>None\<close> stands for \<open>ValueError\<close>.
\<close>

definition py_strip :: "string \<Rightarrow> string" where
  "py_strip s = rev (dropWhile is_space (rev (dropWhile is_space s)))"

definition py_int :: "string \<Rightarrow> int option" where
  "py_int s =
     (case py_strip s of
        [] \<Rightarrow> None
      | c # cs \<Rightarrow>
          (let sgn = (if c = CHR ''-'' then - 1 else 1);
               body = (if c = CHR ''-'' \<or> c = CHR ''+'' then cs else c # cs)
           in case body of
                [] \<Rightarrow> None
              | d # _ \<Rightarrow> if is_digit d then map_option (\<lambda>v. sgn * v) (py_digits body 0) else None))"

section \<open>The operations of \<open>MafiaGame\<close>\<close>

text \<open>\<open>MafiaGame.__init__\<close>: four distinct empty list objects.\<close>

definition MafiaGame_init :: MafiaGame where
  "MafiaGame_init =
     \<lparr>timeout = 10, is_accepting = False, is_ongoing = False,
      players = 0, townies = 1, mafia = 2, alive = 3,
      roles = [], day_num = 0, day_phase = ''Night'', no_lynch = 0,
      vote_table = [], user_to_player = [], gen_channel = None,
      player_heap = (\<lambda>_. Player_init 0), next_player = 0,
      list_heap = (\<lambda>_. []), next_list = 4,
      outbox = [], slept = []\<rparr>"

text \<open>\<open>init_game\<close>: new empty lists for players, townies and mafia; \<open>alive\<close> is not touched.\<close>

definition init_game :: "MafiaGame \<Rightarrow> MafiaGame" where
  "init_game g =
     (let g1 = g\<lparr>is_accepting := True, is_ongoing := True\<rparr>;
          (l1, g2) = new_list g1 [];
          g3 = g2\<lparr>players := l1\<rparr>;
          (l2, g4) = new_list g3 [];
          g5 = g4\<lparr>townies := l2\<rparr>;
          (l3, g6) = new_list g5 [];
          g7 = g6\<lparr>mafia := l3\<rparr>
      in g7\<lparr>roles := [], day_num := 0, day_phase := ''Night'', vote_table := [],
             user_to_player := []\<rparr>)"

definition end_game :: "MafiaGame \<Rightarrow> MafiaGame" where
  "end_game g =
     (let g1 = g\<lparr>is_accepting := True, is_ongoing := True\<rparr>;
          (l1, g2) = new_list g1 [];
          g3 = g2\<lparr>players := l1\<rparr>;
          (l2, g4) = new_list g3 [];
          g5 = g4\<lparr>townies := l2\<rparr>;
          (l3, g6) = new_list g5 [];
          g7 = g6\<lparr>mafia := l3, roles := []\<rparr>;
          (l4, g8) = new_list g7 [];
          g9 = g8\<lparr>alive := l4\<rparr>
      in g9\<lparr>day_num := 0, day_phase := ''Night'', vote_table := [],
             user_to_player := [], gen_channel := None\<rparr>)"

text \<open>
  \<open>add_player\<close>: a new \<open>Player\<close> object, appended in place to the list object that
  \<open>players\<close> points to.
\<close>

definition add_player :: "MafiaGame \<Rightarrow> discord_user \<Rightarrow> MafiaGame" where
  "add_player g discord_user =
     (let p = next_player g
      in g\<lparr>player_heap := (player_heap g)(p := Player_init discord_user),
            next_player := Suc p,
            list_heap := (list_heap g)(players g := list_heap g (players g) @ [p])\<rparr>)"

text \<open>
  \<open>kill_player\<close>: \<open>list.remove\<close> deletes the first occurrence in place, in the list object
  that \<open>alive\<close> points to, and raises \<open>ValueError\<close> when there is none.
\<close>

definition kill_player :: "MafiaGame \<Rightarrow> player_ref \<Rightarrow> error + MafiaGame" where
  "kill_player g player =
     (if player \<notin> set (list_heap g (alive g)) then Inl ValueError
      else Inr (set_is_alive
                  (g\<lparr>list_heap := (list_heap g)(alive g := remove1 player (list_heap g (alive g)))\<rparr>)
                  player False))"

text \<open>\<open>make_vote_table\<close>: \<open>dict(zip(self.alive, zeroes))\<close> inserts the pairs in order.\<close>

definition make_vote_table :: "MafiaGame \<Rightarrow> MafiaGame" where
  "make_vote_table g =
     (let zeroes = replicate (length (list_heap g (alive g))) (0::int)
      in g\<lparr>vote_table := AList.updates (list_heap g (alive g)) zeroes [], no_lynch := 0\<rparr>)"

definition send_message :: "MafiaGame \<Rightarrow> destination \<Rightarrow> text_message \<Rightarrow> MafiaGame" where
  "send_message g dst message = g\<lparr>outbox := outbox g @ [(dst, message)]\<rparr>"

text \<open>The loop \<open>for players in self.players\<close> of \<open>progress_day\<close>.\<close>

fun reset_votes :: "player_ref list \<Rightarrow> MafiaGame \<Rightarrow> MafiaGame" where
  "reset_votes [] g = g"
| "reset_votes (p # ps) g = reset_votes ps (set_votes_for (set_is_no_lynch g p False) p None)"

definition progress_day :: "MafiaGame \<Rightarrow> MafiaGame" where
  "progress_day g =
     (let g1 = (if day_phase g = ''Day'' then g\<lparr>day_phase := ''Night''\<rparr>
                else g\<lparr>day_phase := ''Day'', day_num := day_num g + 1\<rparr>);
          g2 = reset_votes (list_heap g1 (players g1)) g1;
          g3 = g2\<lparr>no_lynch := 0\<rparr>;
          g4 = make_vote_table g3
      in send_message g4 (ToChannel (gen_channel g4)) (ItIsNow (day_phase g4) (day_num g4)))"

text \<open>
  \<open>check_if_day_should_progress\<close>: a \<open>Player\<close> object is truthy, so \<open>if voted\<close> tests for
  \<open>None\<close>; \<open>self.vote_table[voted]\<close> raises \<open>KeyError\<close> for a missing key. The first
  threshold counts the keys of the vote table, the second the alive list.
\<close>

definition check_no_lynch :: "MafiaGame \<Rightarrow> error + MafiaGame" where
  "check_no_lynch g =
     (if no_lynch g \<ge> math_ceil (real (length (list_heap g (alive g))) / 2) then
        Inr (progress_day (send_message g (ToChannel (gen_channel g)) VotedNoLynch))
      else Inr g)"

definition check_if_day_should_progress ::
    "MafiaGame \<Rightarrow> player_ref option \<Rightarrow> error + MafiaGame" where
  "check_if_day_should_progress g voted =
     (case voted of
        None \<Rightarrow> check_no_lynch g
      | Some v \<Rightarrow>
          (case map_of (vote_table g) v of
             None \<Rightarrow> Inl KeyError
           | Some c \<Rightarrow>
               if c \<ge> math_floor (real (length (vote_table g)) / 2) + 1 then
                 (let g1 = (if day_phase g = ''Day''
                            then send_message g (ToChannel (gen_channel g))
                                   (HasBeenLynched (user (player_heap g v)))
                            else send_message g (ToChannel (gen_channel g))
                                   (HasBeenKilled (user (player_heap g v))))
                  in bind_error (kill_player g1 v) (\<lambda>g2. Inr (progress_day g2)))
               else check_no_lynch g))"

text \<open>\<open>print_votes\<close>\<close>

definition print_votes :: "MafiaGame \<Rightarrow> MafiaGame" where
  "print_votes g =
     (let rows = map (\<lambda>(player, votes).
                   (user (player_heap g player), votes,
                    map (\<lambda>p. user (player_heap g p))
                      (filter (\<lambda>p. votes_for (player_heap g p) = Some player)
                         (map fst (vote_table g)))))
                 (vote_table g)
      in send_message g (ToChannel (gen_channel g)) (TheVotesAre rows (no_lynch g)))"

text \<open>
  \<open>random.sample(population, k)\<close> returns a new list of the elements at \<open>k\<close> distinct
  positions of the population. The random source is the parameter \<open>rng\<close>: asked for
  \<open>k\<close> positions in a population of size \<open>n\<close>, it returns the positions drawn. A
  source is valid at \<open>n\<close> and \<open>k\<close> when it returns \<open>k\<close> distinct positions below \<open>n\<close>.
  (\<open>random.sample\<close> raises \<open>ValueError\<close> when \<open>k\<close> exceeds the population; the only
  call asks for \<open>round(n / 4)\<close> of \<open>n\<close>.)
\<close>

type_synonym random_source = "nat \<Rightarrow> nat \<Rightarrow> nat list"

definition valid_sample :: "nat \<Rightarrow> nat \<Rightarrow> nat list \<Rightarrow> bool" where
  "valid_sample n k sample =
     (length sample = k \<and> distinct sample \<and> (\<forall>i \<in> set sample. i < n))"

definition random_sample :: "random_source \<Rightarrow> 'a list \<Rightarrow> nat \<Rightarrow> 'a list" where
  "random_sample rng population k = map (\<lambda>i. population ! i) (rng (length population) k)"

text \<open>The loops \<open>for m in mafias: m.role = ...\<close> and \<open>for t in townies: t.role = ...\<close>.\<close>

fun assign_role :: "player_ref list \<Rightarrow> role option \<Rightarrow> MafiaGame \<Rightarrow> MafiaGame" where
  "assign_role [] r g = g"
| "assign_role (p # ps) r g = assign_role ps r (set_role g p r)"

text \<open>The loop \<open>for p in self.players\<close> that sends each role.\<close>

fun pm_roles :: "player_ref list \<Rightarrow> MafiaGame \<Rightarrow> MafiaGame" where
  "pm_roles [] g = g"
| "pm_roles (p # ps) g =
     pm_roles ps
       (send_message g (ToUser (user (player_heap g p)))
          (YouAreA (str_role (role (player_heap g p)))))"

text \<open>
  The loop \<open>for m in self.mafia\<close> that sends the allies; \<open>ms\<close> is what is left to
  iterate over, \<open>self.mafia[:]\<close> is a copy of the whole list.
\<close>

fun send_allies :: "player_ref list \<Rightarrow> MafiaGame \<Rightarrow> MafiaGame" where
  "send_allies [] g = g"
| "send_allies (m # ms) g =
     (let allies = remove1 m (list_heap g (mafia g));
          allies_names = map (\<lambda>ally. user (player_heap g ally)) allies
      in send_allies ms
           (send_message g (ToChannel (gen_channel g)) (YourAlliesAre allies_names)))"

text \<open>
  \<open>give_roles\<close>. \<open>list(set(self.players) - set(mafias))\<close> has the players that were not
  drawn, each once, in an order Python does not fix; the model takes them in roster
  order. \<open>self.roles['mafia']\<close> and \<open>self.roles['town']\<close> read the dictionary built two
  lines above. \<open>self.alive = self.players\<close> copies the reference: both attributes point
  to one list object afterwards.
\<close>

definition give_roles :: "MafiaGame \<Rightarrow> random_source \<Rightarrow> MafiaGame" where
  "give_roles g rng =
     (let g1 = send_message g (ToChannel (gen_channel g)) AssigningRoles;
          g2 = g1\<lparr>roles := [(''mafia'', MafiaRole ''''), (''town'', TownRole)]\<rparr>;
          num_players = length (list_heap g2 (players g2));
          num_mafia = py_round (real num_players / 4);
          mafias = random_sample rng (list_heap g2 (players g2)) (nat num_mafia);
          townies_new = filter (\<lambda>p. p \<notin> set mafias) (remdups (list_heap g2 (players g2)));
          g3 = assign_role mafias (map_of (roles g2) ''mafia'') g2;
          g4 = assign_role townies_new (map_of (roles g3) ''town'') g3;
          (lm, g5) = new_list g4 mafias;
          g6 = g5\<lparr>mafia := lm\<rparr>;
          (lt, g7) = new_list g6 townies_new;
          g8 = g7\<lparr>townies := lt\<rparr>;
          g9 = g8\<lparr>alive := players g8\<rparr>;
          users = map (\<lambda>p. user (player_heap g9 p)) (list_heap g9 (players g9));
          g10 = g9\<lparr>user_to_player := AList.updates users (list_heap g9 (players g9)) []\<rparr>;
          g11 = send_message g10 (ToChannel (gen_channel g10)) PMingRoles;
          g12 = pm_roles (list_heap g11 (players g11)) g11
      in if length (list_heap g12 (mafia g12)) > 1
         then send_allies (list_heap g12 (mafia g12)) g12
         else g12)"

text \<open>
  \<open>start_new_game\<close>. While the coroutine is suspended in \<open>asyncio.sleep\<close> the join
  handler (not part of this file) calls \<open>add_player\<close> for the users who join;
  \<open>joined\<close> lists them in order. The argument of \<open>asyncio.sleep\<close> is recorded in
  \<open>slept\<close>. (\<open>end_message\<close> is built and never sent.)
\<close>

definition start_new_game ::
    "MafiaGame \<Rightarrow> discord_message \<Rightarrow> discord_user list \<Rightarrow> random_source \<Rightarrow> MafiaGame" where
  "start_new_game g message joined rng =
     (if is_ongoing g then send_message g (ToChannel (gen_channel g)) AlreadyOngoing
      else
        (let g1 = (init_game g)\<lparr>gen_channel := Some (channel message)\<rparr>;
             g2 = send_message g1 (ToChannel (gen_channel g1)) (Opening (timeout g1));
             args = split_space (content message);
             g3 = (if length args > 1
                   then (case py_int (args ! 1) of
                           Some t \<Rightarrow> g2\<lparr>timeout := t\<rparr>
                         | None \<Rightarrow> g2\<lparr>timeout := 0\<rparr>)
                   else g2);
             g4 = fold (\<lambda>m g'. add_player g' m) (mentions message) g3;
             g5 = g4\<lparr>slept := slept g4 @ [timeout g4]\<rparr>;
             g6 = fold (\<lambda>m g'. add_player g' m) joined g5;
             g7 = g6\<lparr>is_accepting := False\<rparr>;
             g8 = give_roles g7 rng
         in progress_day g8))"

text \<open>
  \<open>vote_to_lynch\<close>, lines 356 to 367: the update of the tally once the vote is valid.
  \<open>player\<close> is the voter, \<open>player_being_lynched\<close> the target.
\<close>

definition cast_lynch_vote ::
    "MafiaGame \<Rightarrow> discord_message \<Rightarrow> player_ref \<Rightarrow> discord_user \<Rightarrow> player_ref
       \<Rightarrow> error + MafiaGame" where
  "cast_lynch_vote g message player user_being_lynched player_being_lynched =
     (let g1 = (if is_no_lynch (player_heap g player)
                then (set_is_no_lynch g player False)\<lparr>no_lynch := no_lynch g - 1\<rparr>
                else g)
      in bind_error
           (case votes_for (player_heap g1 player) of
              Some prev \<Rightarrow>
                (case map_of (vote_table g1) prev of
                   None \<Rightarrow> Inl KeyError
                 | Some c \<Rightarrow>
                     Inr (send_message
                            (g1\<lparr>vote_table := AList.update prev (c - 1) (vote_table g1)\<rparr>)
                            (ToChannel (gen_channel g1))
                            (ChangedVoteTo (author message) user_being_lynched)))
            | None \<Rightarrow>
                Inr (send_message g1 (ToChannel (gen_channel g1))
                       (VotedFor (author message) user_being_lynched)))
           (\<lambda>g2. case map_of (vote_table g2) player_being_lynched of
                    None \<Rightarrow> Inl KeyError
                  | Some c \<Rightarrow>
                      Inr (set_votes_for
                             (g2\<lparr>vote_table :=
                                   AList.update player_being_lynched (c + 1) (vote_table g2)\<rparr>)
                             player (Some player_being_lynched))))"

definition vote_to_lynch :: "MafiaGame \<Rightarrow> discord_message \<Rightarrow> error + MafiaGame" where
  "vote_to_lynch g message =
     (if \<not> is_ongoing g then Inl AssertionError
      else case map_of (user_to_player g) (author message) of
        None \<Rightarrow> Inr (send_message g (ToChannel (gen_channel g)) NotPartOfGame)
      | Some player \<Rightarrow>
          if \<not> is_alive (player_heap g player) then
            Inr (send_message g (ToChannel (gen_channel g))
                   (YouAreDead (user (player_heap g player))))
          else case mentions message of
            [] \<Rightarrow> Inr (send_message g (ToChannel (gen_channel g)) HaveToVoteForSomeone)
          | user_being_lynched # _ \<Rightarrow>
              (case map_of (user_to_player g) user_being_lynched of
                 None \<Rightarrow> Inr (send_message g (ToChannel (gen_channel g)) ThatPlayerNotInGame)
               | Some player_being_lynched \<Rightarrow>
                   if \<not> is_alive (player_heap g player_being_lynched) then
                     Inr (send_message g (ToChannel (gen_channel g)) HaveToVoteForSomeoneAlive)
                   else
                     bind_error
                       (cast_lynch_vote g message player user_being_lynched
                          player_being_lynched)
                       (\<lambda>g1. check_if_day_should_progress (print_votes g1)
                                (Some player_being_lynched))))"

text \<open>
  \<open>vote_no_lynch\<close>, lines 388 to 396 first: the update of the tally for a voter who is
  not voting no lynch yet.
\<close>

definition cast_no_lynch_vote :: "MafiaGame \<Rightarrow> player_ref \<Rightarrow> error + MafiaGame" where
  "cast_no_lynch_vote g player =
     bind_error
       (case votes_for (player_heap g player) of
          Some prev \<Rightarrow>
            (case map_of (vote_table g) prev of
               None \<Rightarrow> Inl KeyError
             | Some c \<Rightarrow>
                 Inr (set_votes_for
                        (g\<lparr>vote_table := AList.update prev (c - 1) (vote_table g)\<rparr>)
                        player None))
        | None \<Rightarrow> Inr g)
       (\<lambda>g1. Inr ((set_is_no_lynch g1 player True)\<lparr>no_lynch := no_lynch g1 + 1\<rparr>))"

definition vote_no_lynch :: "MafiaGame \<Rightarrow> discord_message \<Rightarrow> error + MafiaGame" where
  "vote_no_lynch g message =
     (if \<not> is_ongoing g then Inl AssertionError
      else case map_of (user_to_player g) (author message) of
        None \<Rightarrow> Inr (send_message g (ToChannel (gen_channel g)) NotPartOfGame)
      | Some player \<Rightarrow>
          if \<not> is_alive (player_heap g player) then
            Inr (send_message g (ToChannel (gen_channel g))
                   (YouAreDead (user (player_heap g player))))
          else if is_no_lynch (player_heap g player) then Inr g
          else
            bind_error (cast_no_lynch_vote g player)
              (\<lambda>g2. let g3 = send_message g2 (ToChannel (gen_channel g2))
                                (VotesNoLynch (user (player_heap g2 player)))
                     in check_if_day_should_progress (print_votes g3) None))"

section \<open>A concrete game\<close>

text \<open>
  The state of a game of three users 1, 2 and 3 on channel 7 at the start of day 1, as
  \<open>start_new_game\<close> leaves it: \<open>alive\<close> and \<open>players\<close> hold the same list object (address
  4), player 0 is the Mafia player, nobody has voted. \<open>demo_voted\<close> is the same game
  after user 1 voted for user 2 and user 3 voted no lynch.
\<close>

definition demo_heap :: "player_ref \<Rightarrow> Player" where
  "demo_heap p =
     (if p = 0 then \<lparr>user = 1, role = Some (MafiaRole ''''), is_alive = True,
                     votes_for = None, is_no_lynch = False\<rparr>
      else if p = 1 then \<lparr>user = 2, role = Some TownRole, is_alive = True,
                           votes_for = None, is_no_lynch = False\<rparr>
      else if p = 2 then \<lparr>user = 3, role = Some TownRole, is_alive = True,
                           votes_for = None, is_no_lynch = False\<rparr>
      else Player_init 0)"

definition demo_lists :: "list_ref \<Rightarrow> player_ref list" where
  "demo_lists l = (if l = 4 then [0, 1, 2] else if l = 7 then [0] else if l = 8 then [1, 2] else [])"

definition demo_day :: MafiaGame where
  "demo_day =
     \<lparr>timeout = 30, is_accepting = False, is_ongoing = True,
      players = 4, townies = 8, mafia = 7, alive = 4,
      roles = [(''mafia'', MafiaRole ''''), (''town'', TownRole)],
      day_num = 1, day_phase = ''Day'', no_lynch = 0,
      vote_table = [(0, 0), (1, 0), (2, 0)],
      user_to_player = [(1, 0), (2, 1), (3, 2)], gen_channel = Some 7,
      player_heap = demo_heap, next_player = 3,
      list_heap = demo_lists, next_list = 9,
      outbox = [], slept = [30]\<rparr>"

definition demo_voted :: MafiaGame where
  "demo_voted =
     demo_day\<lparr>no_lynch := 1, vote_table := [(0, 0), (1, 1), (2, 0)],
       player_heap := demo_heap
         (0 := (demo_heap 0)\<lparr>votes_for := Some 1\<rparr>,
          2 := (demo_heap 2)\<lparr>is_no_lynch := True\<rparr>)\<rparr>"

text \<open>
  \<open>demo_night\<close> is the game one phase later, after user 2 was lynched: the player is
  marked dead and is gone from the list object that both \<open>alive\<close> and \<open>players\<close> hold.
\<close>

definition demo_night :: MafiaGame where
  "demo_night =
     demo_day\<lparr>day_phase := ''Night'', vote_table := [(0, 0), (2, 0)],
       player_heap := demo_heap(1 := (demo_heap 1)\<lparr>is_alive := False\<rparr>),
       list_heap := demo_lists(4 := [0, 2])\<rparr>"

text \<open>
  \<open>demo_majority\<close>: users 1 and 3 both vote for user 2, two votes out of three alive.
  \<open>demo_no_lynch\<close>: user 1 votes for user 2, users 2 and 3 vote no lynch.
\<close>

definition demo_majority :: MafiaGame where
  "demo_majority =
     demo_day\<lparr>vote_table := [(0, 0), (1, 2), (2, 0)],
       player_heap := demo_heap
         (0 := (demo_heap 0)\<lparr>votes_for := Some 1\<rparr>,
          2 := (demo_heap 2)\<lparr>votes_for := Some 1\<rparr>)\<rparr>"

definition demo_no_lynch :: MafiaGame where
  "demo_no_lynch =
     demo_day\<lparr>no_lynch := 2, vote_table := [(0, 0), (1, 1), (2, 0)],
       player_heap := demo_heap
         (0 := (demo_heap 0)\<lparr>votes_for := Some 1\<rparr>,
          1 := (demo_heap 1)\<lparr>is_no_lynch := True\<rparr>,
          2 := (demo_heap 2)\<lparr>is_no_lynch := True\<rparr>)\<rparr>"

text \<open>
  \<open>demo_lobby\<close>: a game at the end of its joining period, before \<open>give_roles\<close>. Users 1
  to 8 have joined, in this order (player \<open>p\<close> is user \<open>p + 1\<close>); \<open>alive\<close> still holds the
  empty list object of \<open>__init__\<close>. \<open>demo_rng\<close> is a random source that draws the first
  \<open>k\<close> positions.
\<close>

definition demo_rng :: random_source where
  "demo_rng n k = [0..<k]"

definition demo_lobby :: MafiaGame where
  "demo_lobby =
     \<lparr>timeout = 30, is_accepting = False, is_ongoing = True,
      players = 4, townies = 5, mafia = 6, alive = 3,
      roles = [], day_num = 0, day_phase = ''Night'', no_lynch = 0,
      vote_table = [], user_to_player = [], gen_channel = Some 7,
      player_heap = (\<lambda>p. Player_init (Suc p)), next_player = 8,
      list_heap = (\<lambda>l. if l = 4 then [0, 1, 2, 3, 4, 5, 6, 7] else []), next_list = 7,
      outbox = [(ToChannel (Some 7), Opening 10)], slept = [30]\<rparr>"

text \<open>
  \<open>demo_lobby_twice\<close>: a lobby in which user 5 joined twice; \<open>add_player\<close> made a
  \<open>Player\<close> object for each join.
\<close>

definition demo_lobby_twice :: MafiaGame where
  "demo_lobby_twice =
     demo_lobby\<lparr>player_heap := (\<lambda>p. Player_init 5), next_player := 2,
       list_heap := (\<lambda>l. if l = 4 then [0, 1] else [])\<rparr>"

text \<open>
  \<open>demo_start\<close>: the message \<open>start 30\<close> of user 1 on channel 7, no user mentioned.
\<close>

definition demo_start :: discord_message where
  "demo_start = \<lparr>author = 1, content = ''start 30'', mentions = [], channel = 7\<rparr>"

section \<open>Properties\<close>

subsection \<open>Arithmetic of the thresholds\<close>

lemma math_floor_half: "math_floor (real n / 2) = int (n div 2)"
  unfolding math_floor_def
  by (metis floor_divide_of_nat_eq of_nat_numeral)

lemma math_ceil_half: "math_ceil (real n / 2) = int ((n + 1) div 2)"
proof -
  have "\<lceil>real n / 2\<rceil> = - \<lfloor>- (real n / 2)\<rfloor>" by (simp add: ceiling_def)
  also have "- (real n / 2) = real_of_int (- int n) / real_of_int 2" by simp
  also have "\<lfloor>real_of_int (- int n) / real_of_int 2\<rfloor> = (- int n) div 2"
    by (rule floor_divide_of_int_eq)
  finally show ?thesis unfolding math_ceil_def by linarith
qed

lemma py_round_quarter:
  "py_round (real n / 4) =
     int (n div 4) + (if n mod 4 = 3 \<or> (n mod 4 = 2 \<and> odd (n div 4)) then 1 else 0)"
proof -
  have fl: "\<lfloor>real n / 4\<rfloor> = int (n div 4)"
    by (metis floor_divide_of_nat_eq of_nat_numeral)
  have n: "real n = 4 * real (n div 4) + real (n mod 4)"
    by (metis mult_div_mod_eq of_nat_add of_nat_mult of_nat_numeral)
  have d: "real n / 4 - real_of_int (int (n div 4)) = real (n mod 4) / 4"
    by (subst n) (simp add: field_simps)
  have r: "n mod 4 = 0 \<or> n mod 4 = 1 \<or> n mod 4 = 2 \<or> n mod 4 = 3"
    by presburger
  show ?thesis
    unfolding py_round_def Let_def fl d
    using r by (elim disjE) simp_all
qed

subsection \<open>The vote table built by \<open>make_vote_table\<close>\<close>

lemma updates_zero_keys:
  "fst ` set (AList.updates ks (replicate (length ks) (0::int)) al) = set ks \<union> fst ` set al"
proof -
  have "fst ` set (AList.updates ks (replicate (length ks) (0::int)) al)
          = dom (map_of (AList.updates ks (replicate (length ks) (0::int)) al))"
    by (simp add: dom_map_of_conv_image_fst)
  also have "\<dots> = set ks \<union> fst ` set al"
    by (simp add: AList.updates_conv' dom_map_of_conv_image_fst)
  finally show ?thesis .
qed

lemma updates_zero_values:
  "(\<forall>(k, c) \<in> set al. c = (0::int)) \<Longrightarrow>
   (\<forall>(k, c) \<in> set (AList.updates ks (replicate (length ks) 0) al). c = 0)"
proof (induction ks arbitrary: al)
  case Nil
  then show ?case by (simp add: AList.updates_def)
next
  case (Cons k ks)
  have "\<forall>(k', c) \<in> set (AList.update k 0 al). c = 0"
    using Cons.prems by (induction al) (auto split: if_splits)
  from Cons.IH [OF this] show ?case by simp
qed

lemma updates_fresh:
  "distinct ks \<Longrightarrow> set ks \<inter> fst ` set al = {} \<Longrightarrow> length vs = length ks \<Longrightarrow>
   AList.updates ks vs al = al @ zip ks vs"
proof (induction ks arbitrary: vs al)
  case Nil
  then show ?case by (simp add: AList.updates_def)
next
  case (Cons k ks)
  then obtain v vs' where vs: "vs = v # vs'" by (cases vs) auto
  have upd: "AList.update k v al = al @ [(k, v)]"
    using Cons.prems(2) by (induction al) auto
  have "AList.updates ks vs' (al @ [(k, v)]) = (al @ [(k, v)]) @ zip ks vs'"
    using Cons.prems vs by (intro Cons.IH) auto
  then show ?case using vs upd by simp
qed

lemma zip_replicate_const:
  "zip xs (replicate (length xs) c) = map (\<lambda>x. (x, c)) xs"
  by (induction xs) simp_all

lemma make_vote_table_distinct:
  "distinct (list_heap g (alive g)) \<Longrightarrow>
   vote_table (make_vote_table g) = map (\<lambda>p. (p, 0)) (list_heap g (alive g))"
  by (simp add: make_vote_table_def Let_def updates_fresh zip_replicate_const)

subsection \<open>\<open>progress_day\<close>\<close>

lemma reset_votes_heap:
  "player_heap (reset_votes ps g) p =
     (if p \<in> set ps then (player_heap g p)\<lparr>is_no_lynch := False, votes_for := None\<rparr>
      else player_heap g p)"
  by (induction ps arbitrary: g) (auto simp: set_votes_for_def set_is_no_lynch_def)

lemma reset_votes_fields:
  "list_heap (reset_votes ps g) = list_heap g"
  "alive (reset_votes ps g) = alive g"
  "players (reset_votes ps g) = players g"
  "day_phase (reset_votes ps g) = day_phase g"
  "day_num (reset_votes ps g) = day_num g"
  "gen_channel (reset_votes ps g) = gen_channel g"
  "outbox (reset_votes ps g) = outbox g"
  "user_to_player (reset_votes ps g) = user_to_player g"
  "next_player (reset_votes ps g) = next_player g"
  "is_ongoing (reset_votes ps g) = is_ongoing g"
  by (induction ps arbitrary: g) (simp_all add: set_votes_for_def set_is_no_lynch_def)

lemma progress_day_fields:
  "list_heap (progress_day g) = list_heap g"
  "alive (progress_day g) = alive g"
  "players (progress_day g) = players g"
  "user_to_player (progress_day g) = user_to_player g"
  "next_player (progress_day g) = next_player g"
  "is_ongoing (progress_day g) = is_ongoing g"
  "no_lynch (progress_day g) = 0"
  "vote_table (progress_day g) =
     AList.updates (list_heap g (alive g)) (replicate (length (list_heap g (alive g))) 0) []"
  "player_heap (progress_day g) p =
     (if p \<in> set (list_heap g (players g))
      then (player_heap g p)\<lparr>is_no_lynch := False, votes_for := None\<rparr>
      else player_heap g p)"
  "day_phase (progress_day g) = (if day_phase g = ''Day'' then ''Night'' else ''Day'')"
  "day_num (progress_day g) = (if day_phase g = ''Day'' then day_num g else day_num g + 1)"
  by (simp_all add: progress_day_def Let_def make_vote_table_def send_message_def
        reset_votes_fields reset_votes_heap)

text \<open>
  What \<open>progress_day\<close> does: it turns Day into Night and anything else (Night) into Day,
  adds one to \<open>day_num\<close> only when the new phase is Day, leaves every member of the list
  object that \<open>players\<close> holds with \<open>votes_for\<close> \<open>None\<close> and \<open>is_no_lynch\<close> \<open>False\<close>, sets
  the no-lynch counter to 0, and rebuilds the vote table: its keys are exactly the members
  of the alive list and every count is 0. The two roster lists themselves are not
  changed. A \<open>Player\<close> object that is not in the list object of \<open>players\<close> is not
  touched.
\<close>

lemma progress_day_resets:
  "day_phase (progress_day g) = (if day_phase g = ''Day'' then ''Night'' else ''Day'')
   \<and> day_num (progress_day g) = (if day_phase g = ''Day'' then day_num g else day_num g + 1)
   \<and> players_list (progress_day g) = players_list g
   \<and> alive_list (progress_day g) = alive_list g
   \<and> (\<forall>p \<in> set (players_list (progress_day g)).
         votes_for (player_heap (progress_day g) p) = None
         \<and> \<not> is_no_lynch (player_heap (progress_day g) p))
   \<and> no_lynch (progress_day g) = 0
   \<and> fst ` set (vote_table (progress_day g)) = set (alive_list (progress_day g))
   \<and> (\<forall>(p, c) \<in> set (vote_table (progress_day g)). c = 0)"
proof -
  have v: "\<forall>(p, c) \<in> set (AList.updates ks (replicate (length ks) (0::int)) []). c = 0"
    for ks :: "nat list"
    by (rule updates_zero_values) simp
  show ?thesis
    using v
    by (simp add: progress_day_fields players_list_def alive_list_def updates_zero_keys)
qed

subsection \<open>\<open>vote_to_lynch\<close>: validation\<close>

text \<open>
  C3. In an ongoing game \<open>vote_to_lynch\<close> checks, in this order, that the author is a
  key of \<open>user_to_player\<close>, that the author's player is alive, that the message mentions
  someone, that the first mention is a key of \<open>user_to_player\<close>, and that the mentioned
  player is alive. The first check that fails decides the answer, whatever the later
  ones would say, and the answer is the game as it was with one message appended to the
  outbox: every \<open>Player\<close> object, the vote table, the no-lynch counter, the phase and the
  day number are the old ones.
\<close>

theorem vote_to_lynch_validation:
  assumes "is_ongoing g"
  shows
    "(map_of (user_to_player g) (author message) = None \<longrightarrow>
        vote_to_lynch g message =
          Inr (g\<lparr>outbox := outbox g @ [(ToChannel (gen_channel g), NotPartOfGame)]\<rparr>))
     \<and> (\<forall>player. map_of (user_to_player g) (author message) = Some player \<longrightarrow>
          (\<not> is_alive (player_heap g player) \<longrightarrow>
             vote_to_lynch g message =
               Inr (g\<lparr>outbox := outbox g @
                     [(ToChannel (gen_channel g), YouAreDead (user (player_heap g player)))]\<rparr>))
          \<and> (is_alive (player_heap g player) \<longrightarrow>
               (mentions message = [] \<longrightarrow>
                  vote_to_lynch g message =
                    Inr (g\<lparr>outbox := outbox g @
                          [(ToChannel (gen_channel g), HaveToVoteForSomeone)]\<rparr>))
               \<and> (\<forall>target rest. mentions message = target # rest \<longrightarrow>
                    (map_of (user_to_player g) target = None \<longrightarrow>
                       vote_to_lynch g message =
                         Inr (g\<lparr>outbox := outbox g @
                               [(ToChannel (gen_channel g), ThatPlayerNotInGame)]\<rparr>))
                    \<and> (\<forall>lynched. map_of (user_to_player g) target = Some lynched
                          \<and> \<not> is_alive (player_heap g lynched) \<longrightarrow>
                          vote_to_lynch g message =
                            Inr (g\<lparr>outbox := outbox g @
                                  [(ToChannel (gen_channel g), HaveToVoteForSomeoneAlive)]\<rparr>)))))"
  using assms by (simp add: vote_to_lynch_def send_message_def)

lemma demo_night_lookup:
  "is_ongoing demo_night" "gen_channel demo_night = Some 7" "outbox demo_night = []"
  "map_of (user_to_player demo_night) 9 = None"
  "map_of (user_to_player demo_night) 1 = Some 0"
  "map_of (user_to_player demo_night) 2 = Some 1"
  "is_alive (player_heap demo_night 0)" "\<not> is_alive (player_heap demo_night 1)"
  "user (player_heap demo_night 1) = 2"
  by (simp_all add: demo_night_def demo_day_def demo_heap_def)

theorem vote_to_lynch_validation_witness:
  "vote_to_lynch demo_night \<lparr>author = 9, content = ''vote'', mentions = [1], channel = 7\<rparr>
     = Inr (demo_night\<lparr>outbox := [(ToChannel (Some 7), NotPartOfGame)]\<rparr>)
   \<and> vote_to_lynch demo_night \<lparr>author = 2, content = ''vote'', mentions = [], channel = 7\<rparr>
     = Inr (demo_night\<lparr>outbox := [(ToChannel (Some 7), YouAreDead 2)]\<rparr>)
   \<and> vote_to_lynch demo_night \<lparr>author = 1, content = ''vote'', mentions = [], channel = 7\<rparr>
     = Inr (demo_night\<lparr>outbox := [(ToChannel (Some 7), HaveToVoteForSomeone)]\<rparr>)
   \<and> vote_to_lynch demo_night \<lparr>author = 1, content = ''vote'', mentions = [9, 2], channel = 7\<rparr>
     = Inr (demo_night\<lparr>outbox := [(ToChannel (Some 7), ThatPlayerNotInGame)]\<rparr>)
   \<and> vote_to_lynch demo_night \<lparr>author = 1, content = ''vote'', mentions = [2], channel = 7\<rparr>
     = Inr (demo_night\<lparr>outbox := [(ToChannel (Some 7), HaveToVoteForSomeoneAlive)]\<rparr>)"
  using
    vote_to_lynch_validation [OF demo_night_lookup(1),
      of "\<lparr>author = 9, content = ''vote'', mentions = [1], channel = 7\<rparr>"]
    vote_to_lynch_validation [OF demo_night_lookup(1),
      of "\<lparr>author = 2, content = ''vote'', mentions = [], channel = 7\<rparr>"]
    vote_to_lynch_validation [OF demo_night_lookup(1),
      of "\<lparr>author = 1, content = ''vote'', mentions = [], channel = 7\<rparr>"]
    vote_to_lynch_validation [OF demo_night_lookup(1),
      of "\<lparr>author = 1, content = ''vote'', mentions = [9, 2], channel = 7\<rparr>"]
    vote_to_lynch_validation [OF demo_night_lookup(1),
      of "\<lparr>author = 1, content = ''vote'', mentions = [2], channel = 7\<rparr>"]
  by (simp add: demo_night_lookup del: One_nat_def)

subsection \<open>\<open>kill_player\<close>\<close>

lemma kill_player_fields:
  assumes "kill_player g p = Inr g'"
  shows "p \<in> set (list_heap g (alive g))"
    "list_heap g' = (list_heap g)(alive g := remove1 p (list_heap g (alive g)))"
    "player_heap g' = (player_heap g)(p := (player_heap g p)\<lparr>is_alive := False\<rparr>)"
    "alive g' = alive g" "players g' = players g"
    "user_to_player g' = user_to_player g" "next_player g' = next_player g"
    "vote_table g' = vote_table g" "no_lynch g' = no_lynch g"
    "day_phase g' = day_phase g" "day_num g' = day_num g" "outbox g' = outbox g"
    "gen_channel g' = gen_channel g" "is_ongoing g' = is_ongoing g"
  using assms by (auto simp: kill_player_def set_is_alive_def split: if_splits)

lemma kill_player_succeeds:
  "p \<in> set (list_heap g (alive g)) \<Longrightarrow> \<exists>g'. kill_player g p = Inr g'"
  by (simp add: kill_player_def)

subsection \<open>Outcomes of \<open>check_if_day_should_progress\<close>\<close>

lemma progress_day_outbox:
  "slept (progress_day g) = slept g"
  "timeout (progress_day g) = timeout g"
  "gen_channel (progress_day g) = gen_channel g"
  "outbox (progress_day g) =
     outbox g @ [(ToChannel (gen_channel g),
                  ItIsNow (if day_phase g = ''Day'' then ''Night'' else ''Day'')
                    (if day_phase g = ''Day'' then day_num g else day_num g + 1))]"
proof -
  have f: "slept (reset_votes ps h) = slept h" "timeout (reset_votes ps h) = timeout h"
    for ps h
    by (induction ps arbitrary: h) (simp_all add: set_votes_for_def set_is_no_lynch_def)
  show "slept (progress_day g) = slept g"
    "timeout (progress_day g) = timeout g"
    "gen_channel (progress_day g) = gen_channel g"
    "outbox (progress_day g) =
     outbox g @ [(ToChannel (gen_channel g),
                  ItIsNow (if day_phase g = ''Day'' then ''Night'' else ''Day'')
                    (if day_phase g = ''Day'' then day_num g else day_num g + 1))]"
    by (simp_all add: progress_day_def Let_def make_vote_table_def send_message_def
          reset_votes_fields f)
qed

lemma updates_zero_list:
  "distinct ks \<Longrightarrow>
   AList.updates ks (replicate (length ks) (0::int)) [] = map (\<lambda>p. (p, 0)) ks"
  by (simp add: updates_fresh zip_replicate_const)

lemma progress_day_table:
  "distinct (list_heap g (alive g)) \<Longrightarrow>
   vote_table (progress_day g) = map (\<lambda>p. (p, 0)) (list_heap g (alive g))"
  by (simp add: progress_day_fields(8) updates_zero_list)

text \<open>
  The state in which \<open>progress_day\<close> runs when the target \<open>v\<close> has reached the threshold:
  the announcement is in the outbox, \<open>v\<close> is gone from the list object of \<open>alive\<close> and
  marked dead.
\<close>

lemma check_target_fires:
  assumes "map_of (vote_table g) v = Some c"
      and "int (length (vote_table g) div 2) + 1 \<le> c"
      and "v \<in> set (list_heap g (alive g))"
  shows "check_if_day_should_progress g (Some v) =
           Inr (progress_day
                  (set_is_alive
                     ((send_message g (ToChannel (gen_channel g))
                         (if day_phase g = ''Day'' then HasBeenLynched (user (player_heap g v))
                          else HasBeenKilled (user (player_heap g v))))
                      \<lparr>list_heap := (list_heap g)(alive g := remove1 v (list_heap g (alive g)))\<rparr>)
                     v False))"
  using assms
  by (simp add: check_if_day_should_progress_def math_floor_half bind_error_def
        kill_player_def send_message_def)

lemma check_target_fires_fields:
  fixes g :: MafiaGame and v :: player_ref
  defines "k \<equiv> set_is_alive
                     ((send_message g (ToChannel (gen_channel g))
                         (if day_phase g = ''Day'' then HasBeenLynched (user (player_heap g v))
                          else HasBeenKilled (user (player_heap g v))))
                      \<lparr>list_heap := (list_heap g)(alive g := remove1 v (list_heap g (alive g)))\<rparr>)
                     v False"
  shows "list_heap (progress_day k) = (list_heap g)(alive g := remove1 v (list_heap g (alive g)))"
    and "alive (progress_day k) = alive g"
    and "players (progress_day k) = players g"
    and "user_to_player (progress_day k) = user_to_player g"
    and "next_player (progress_day k) = next_player g"
    and "is_ongoing (progress_day k) = is_ongoing g"
    and "no_lynch (progress_day k) = 0"
    and "day_phase (progress_day k) = (if day_phase g = ''Day'' then ''Night'' else ''Day'')"
    and "day_num (progress_day k) = (if day_phase g = ''Day'' then day_num g else day_num g + 1)"
    and "gen_channel (progress_day k) = gen_channel g"
    and "player_heap (progress_day k) p =
           (if p \<in> set (((list_heap g)(alive g := remove1 v (list_heap g (alive g)))) (players g))
            then (if p = v then (player_heap g p)\<lparr>is_alive := False\<rparr> else player_heap g p)
                    \<lparr>is_no_lynch := False, votes_for := None\<rparr>
            else if p = v then (player_heap g p)\<lparr>is_alive := False\<rparr> else player_heap g p)"
    and "outbox (progress_day k) =
           outbox g @
             [(ToChannel (gen_channel g),
               if day_phase g = ''Day'' then HasBeenLynched (user (player_heap g v))
               else HasBeenKilled (user (player_heap g v))),
              (ToChannel (gen_channel g),
               ItIsNow (if day_phase g = ''Day'' then ''Night'' else ''Day'')
                 (if day_phase g = ''Day'' then day_num g else day_num g + 1))]"
    and "distinct (list_heap g (alive g)) \<Longrightarrow>
           vote_table (progress_day k) = map (\<lambda>p. (p, 0)) (remove1 v (list_heap g (alive g)))"
  unfolding k_def
  by (simp_all add: progress_day_fields progress_day_outbox updates_zero_list
        set_is_alive_def send_message_def)

lemma check_no_lynch_fires:
  assumes "int ((length (list_heap g (alive g)) + 1) div 2) \<le> no_lynch g"
  shows "check_no_lynch g =
           Inr (progress_day (send_message g (ToChannel (gen_channel g)) VotedNoLynch))"
  using assms by (simp add: check_no_lynch_def math_ceil_half)

lemma check_no_lynch_quiet:
  assumes "no_lynch g < int ((length (list_heap g (alive g)) + 1) div 2)"
  shows "check_no_lynch g = Inr g"
  using assms by (simp add: check_no_lynch_def math_ceil_half)

lemma check_target_below:
  assumes "map_of (vote_table g) v = Some c"
      and "c < int (length (vote_table g) div 2) + 1"
  shows "check_if_day_should_progress g (Some v) = check_no_lynch g"
  using assms by (simp add: check_if_day_should_progress_def math_floor_half)

lemma check_no_target:
  "check_if_day_should_progress g None = check_no_lynch g"
  by (simp add: check_if_day_should_progress_def)

lemma no_lynch_fires_fields:
  fixes g :: MafiaGame
  defines "k \<equiv> send_message g (ToChannel (gen_channel g)) VotedNoLynch"
  shows "list_heap (progress_day k) = list_heap g"
    and "alive (progress_day k) = alive g"
    and "players (progress_day k) = players g"
    and "user_to_player (progress_day k) = user_to_player g"
    and "next_player (progress_day k) = next_player g"
    and "is_ongoing (progress_day k) = is_ongoing g"
    and "no_lynch (progress_day k) = 0"
    and "day_phase (progress_day k) = (if day_phase g = ''Day'' then ''Night'' else ''Day'')"
    and "day_num (progress_day k) = (if day_phase g = ''Day'' then day_num g else day_num g + 1)"
    and "gen_channel (progress_day k) = gen_channel g"
    and "player_heap (progress_day k) p =
           (if p \<in> set (list_heap g (players g))
            then (player_heap g p)\<lparr>is_no_lynch := False, votes_for := None\<rparr>
            else player_heap g p)"
    and "outbox (progress_day k) =
           outbox g @
             [(ToChannel (gen_channel g), VotedNoLynch),
              (ToChannel (gen_channel g),
               ItIsNow (if day_phase g = ''Day'' then ''Night'' else ''Day'')
                 (if day_phase g = ''Day'' then day_num g else day_num g + 1))]"
    and "distinct (list_heap g (alive g)) \<Longrightarrow>
           vote_table (progress_day k) = map (\<lambda>p. (p, 0)) (list_heap g (alive g))"
  unfolding k_def
  by (simp_all add: progress_day_fields progress_day_outbox updates_zero_list send_message_def)

subsection \<open>Majority\<close>

lemma vote_to_lynch_evaluates:
  assumes "is_ongoing h"
      and "map_of (user_to_player h) (author message) = Some player"
      and "is_alive (player_heap h player)"
      and "mentions message = target # rest"
      and "map_of (user_to_player h) target = Some lynched"
      and "is_alive (player_heap h lynched)"
  shows "vote_to_lynch h message =
           bind_error (cast_lynch_vote h message player target lynched)
             (\<lambda>g1. check_if_day_should_progress (print_votes g1) (Some lynched))"
  using assms by (simp add: vote_to_lynch_def)

lemma vote_no_lynch_evaluates:
  assumes "is_ongoing h"
      and "map_of (user_to_player h) (author message) = Some player"
      and "is_alive (player_heap h player)"
      and "\<not> is_no_lynch (player_heap h player)"
  shows "vote_no_lynch h message =
           bind_error (cast_no_lynch_vote h player)
             (\<lambda>g2. check_if_day_should_progress
                      (print_votes
                         (send_message g2 (ToChannel (gen_channel g2))
                            (VotesNoLynch (user (player_heap g2 player)))))
                      None)"
  using assms by (simp add: vote_no_lynch_def Let_def)

text \<open>
  C1. \<open>vote_to_lynch\<close> and \<open>vote_no_lynch\<close> end, once the vote is counted, with
  \<open>check_if_day_should_progress\<close> on the updated game (with the voted target, and with no
  target). On a game \<open>g\<close> whose vote table has one entry per member of the alive list,
  \<open>n\<close> of them, \<open>check_if_day_should_progress\<close> does the following.
  \<^item> If a target is given and its count is at least \<open>n div 2 + 1\<close> (that is
    \<open>floor(n / 2) + 1\<close>), whatever the no-lynch counter is: the target is announced
    (lynched by Day, killed otherwise), marked dead and removed from the alive list, no
    other player's \<open>is_alive\<close> changes, and the phase changes: Day becomes Night and Night
    becomes Day, \<open>day_num\<close> grows by one in the second case only, the no-lynch counter is
    0, the vote table has the members of the new alive list, each with count 0, every
    player of the roster list has no vote, and the new phase is announced.
  \<^item> Otherwise, if the no-lynch counter is at least \<open>(n + 1) div 2\<close> (that is
    \<open>ceil(n / 2)\<close>): the no-lynch result is announced, nobody is marked dead or removed,
    and the phase changes in the same way.
  \<^item> Otherwise the game is returned as it was: no announcement, no change of phase.
\<close>

theorem check_if_day_should_progress_majority:
  fixes g :: MafiaGame and voted :: "player_ref option"
  defines "n \<equiv> length (alive_list g)"
  defines "new_phase \<equiv> (if day_phase g = ''Day'' then ''Night'' else ''Day'')"
  defines "new_num \<equiv> (if day_phase g = ''Day'' then day_num g else day_num g + 1)"
  assumes "length (vote_table g) = length (alive_list g)"
      and "distinct (alive_list g)"
  shows
    "(\<forall>v c. voted = Some v \<and> map_of (vote_table g) v = Some c \<and> v \<in> set (alive_list g)
         \<and> int (n div 2) + 1 \<le> c \<longrightarrow>
        (\<exists>g'. check_if_day_should_progress g voted = Inr g'
           \<and> \<not> is_alive (player_heap g' v)
           \<and> (\<forall>p. p \<noteq> v \<longrightarrow> is_alive (player_heap g' p) = is_alive (player_heap g p))
           \<and> alive_list g' = remove1 v (alive_list g)
           \<and> v \<notin> set (alive_list g')
           \<and> day_phase g' = new_phase \<and> day_num g' = new_num
           \<and> no_lynch g' = 0
           \<and> vote_table g' = map (\<lambda>p. (p, 0)) (alive_list g')
           \<and> (\<forall>p \<in> set (players_list g').
                 votes_for (player_heap g' p) = None \<and> \<not> is_no_lynch (player_heap g' p))
           \<and> outbox g' =
                outbox g @
                  [(ToChannel (gen_channel g),
                    if day_phase g = ''Day'' then HasBeenLynched (user (player_heap g v))
                    else HasBeenKilled (user (player_heap g v))),
                   (ToChannel (gen_channel g), ItIsNow new_phase new_num)]))
     \<and> (voted = None
          \<or> (\<exists>v c. voted = Some v \<and> map_of (vote_table g) v = Some c
                \<and> c < int (n div 2) + 1) \<longrightarrow>
          (int ((n + 1) div 2) \<le> no_lynch g \<longrightarrow>
             (\<exists>g'. check_if_day_should_progress g voted = Inr g'
                \<and> (\<forall>p. is_alive (player_heap g' p) = is_alive (player_heap g p))
                \<and> alive_list g' = alive_list g
                \<and> day_phase g' = new_phase \<and> day_num g' = new_num
                \<and> no_lynch g' = 0
                \<and> vote_table g' = map (\<lambda>p. (p, 0)) (alive_list g')
                \<and> (\<forall>p \<in> set (players_list g').
                      votes_for (player_heap g' p) = None
                      \<and> \<not> is_no_lynch (player_heap g' p))
                \<and> outbox g' =
                     outbox g @
                       [(ToChannel (gen_channel g), VotedNoLynch),
                        (ToChannel (gen_channel g), ItIsNow new_phase new_num)]))
          \<and> (no_lynch g < int ((n + 1) div 2) \<longrightarrow>
               check_if_day_should_progress g voted = Inr g))
     \<and> (\<forall>h message player target rest lynched.
           is_ongoing h \<and> map_of (user_to_player h) (author message) = Some player
           \<and> is_alive (player_heap h player) \<and> mentions message = target # rest
           \<and> map_of (user_to_player h) target = Some lynched
           \<and> is_alive (player_heap h lynched) \<longrightarrow>
           vote_to_lynch h message =
             bind_error (cast_lynch_vote h message player target lynched)
               (\<lambda>g1. check_if_day_should_progress (print_votes g1) (Some lynched)))
     \<and> (\<forall>h message player.
           is_ongoing h \<and> map_of (user_to_player h) (author message) = Some player
           \<and> is_alive (player_heap h player) \<and> \<not> is_no_lynch (player_heap h player) \<longrightarrow>
           vote_no_lynch h message =
             bind_error (cast_no_lynch_vote h player)
               (\<lambda>g2. check_if_day_should_progress
                        (print_votes
                           (send_message g2 (ToChannel (gen_channel g2))
                              (VotesNoLynch (user (player_heap g2 player)))))
                        None))"
proof -
  have len: "length (vote_table g) = n"
    using assms(4) by (simp add: n_def)
  have dist: "distinct (list_heap g (alive g))"
    using assms(5) by (simp add: alive_list_def)
  have n: "length (list_heap g (alive g)) = n"
    by (simp add: n_def alive_list_def)
  have target: "\<exists>g'. check_if_day_should_progress g voted = Inr g'
           \<and> \<not> is_alive (player_heap g' v)
           \<and> (\<forall>p. p \<noteq> v \<longrightarrow> is_alive (player_heap g' p) = is_alive (player_heap g p))
           \<and> alive_list g' = remove1 v (alive_list g)
           \<and> v \<notin> set (alive_list g')
           \<and> day_phase g' = new_phase \<and> day_num g' = new_num
           \<and> no_lynch g' = 0
           \<and> vote_table g' = map (\<lambda>p. (p, 0)) (alive_list g')
           \<and> (\<forall>p \<in> set (players_list g').
                 votes_for (player_heap g' p) = None \<and> \<not> is_no_lynch (player_heap g' p))
           \<and> outbox g' =
                outbox g @
                  [(ToChannel (gen_channel g),
                    if day_phase g = ''Day'' then HasBeenLynched (user (player_heap g v))
                    else HasBeenKilled (user (player_heap g v))),
                   (ToChannel (gen_channel g), ItIsNow new_phase new_num)]"
    if h: "voted = Some v" "map_of (vote_table g) v = Some c" "v \<in> set (alive_list g)"
          "int (n div 2) + 1 \<le> c" for v c
  proof -
    let ?k = "set_is_alive
                ((send_message g (ToChannel (gen_channel g))
                    (if day_phase g = ''Day'' then HasBeenLynched (user (player_heap g v))
                     else HasBeenKilled (user (player_heap g v))))
                 \<lparr>list_heap := (list_heap g)(alive g := remove1 v (list_heap g (alive g)))\<rparr>)
                v False"
    let ?g' = "progress_day ?k"
    have r: "check_if_day_should_progress g voted = Inr ?g'"
      unfolding h(1) using h(2) h(4) h(3)
      by (intro check_target_fires) (simp_all add: len alive_list_def)
    have a: "alive_list ?g' = remove1 v (alive_list g)"
      by (simp add: alive_list_def check_target_fires_fields)
    have t: "vote_table ?g' = map (\<lambda>p. (p, 0)) (alive_list ?g')"
      unfolding a using check_target_fires_fields(13) [OF dist] by (simp add: alive_list_def)
    have "\<not> is_alive (player_heap ?g' v)"
      "\<forall>p. p \<noteq> v \<longrightarrow> is_alive (player_heap ?g' p) = is_alive (player_heap g p)"
      "v \<notin> set (alive_list ?g')"
      "day_phase ?g' = new_phase" "day_num ?g' = new_num" "no_lynch ?g' = 0"
      "\<forall>p \<in> set (players_list ?g').
          votes_for (player_heap ?g' p) = None \<and> \<not> is_no_lynch (player_heap ?g' p)"
      "outbox ?g' =
                outbox g @
                  [(ToChannel (gen_channel g),
                    if day_phase g = ''Day'' then HasBeenLynched (user (player_heap g v))
                    else HasBeenKilled (user (player_heap g v))),
                   (ToChannel (gen_channel g), ItIsNow new_phase new_num)]"
      unfolding a using assms(5)
      by (simp_all add: players_list_def check_target_fires_fields new_phase_def new_num_def)
    with r a t show ?thesis by (intro exI [of _ ?g']) simp
  qed
  have none: "\<exists>g'. check_if_day_should_progress g voted = Inr g'
                \<and> (\<forall>p. is_alive (player_heap g' p) = is_alive (player_heap g p))
                \<and> alive_list g' = alive_list g
                \<and> day_phase g' = new_phase \<and> day_num g' = new_num
                \<and> no_lynch g' = 0
                \<and> vote_table g' = map (\<lambda>p. (p, 0)) (alive_list g')
                \<and> (\<forall>p \<in> set (players_list g').
                      votes_for (player_heap g' p) = None
                      \<and> \<not> is_no_lynch (player_heap g' p))
                \<and> outbox g' =
                     outbox g @
                       [(ToChannel (gen_channel g), VotedNoLynch),
                        (ToChannel (gen_channel g), ItIsNow new_phase new_num)]"
    if c: "check_if_day_should_progress g voted = check_no_lynch g"
      and l: "int ((n + 1) div 2) \<le> no_lynch g"
  proof -
    let ?g' = "progress_day (send_message g (ToChannel (gen_channel g)) VotedNoLynch)"
    have r: "check_if_day_should_progress g voted = Inr ?g'"
      unfolding c using l by (intro check_no_lynch_fires) (simp add: n)
    have a: "alive_list ?g' = alive_list g"
      by (simp add: alive_list_def no_lynch_fires_fields)
    have t: "vote_table ?g' = map (\<lambda>p. (p, 0)) (alive_list ?g')"
      unfolding a using no_lynch_fires_fields(13) [OF dist] by (simp add: alive_list_def)
    have "\<forall>p. is_alive (player_heap ?g' p) = is_alive (player_heap g p)"
      "day_phase ?g' = new_phase" "day_num ?g' = new_num" "no_lynch ?g' = 0"
      "\<forall>p \<in> set (players_list ?g').
          votes_for (player_heap ?g' p) = None \<and> \<not> is_no_lynch (player_heap ?g' p)"
      "outbox ?g' =
                     outbox g @
                       [(ToChannel (gen_channel g), VotedNoLynch),
                        (ToChannel (gen_channel g), ItIsNow new_phase new_num)]"
      by (simp_all add: players_list_def no_lynch_fires_fields new_phase_def new_num_def)
    with r a t show ?thesis by (intro exI [of _ ?g']) simp
  qed
  have quiet: "check_if_day_should_progress g voted = Inr g"
    if c: "check_if_day_should_progress g voted = check_no_lynch g"
      and l: "no_lynch g < int ((n + 1) div 2)"
    unfolding c using l by (intro check_no_lynch_quiet) (simp add: n)
  have below: "check_if_day_should_progress g voted = check_no_lynch g"
    if "voted = None
          \<or> (\<exists>v c. voted = Some v \<and> map_of (vote_table g) v = Some c
                \<and> c < int (n div 2) + 1)"
    using that check_no_target [of g] check_target_below [of g] len by auto
  show ?thesis
  proof (intro conjI allI impI)
    fix v c
    assume "voted = Some v \<and> map_of (vote_table g) v = Some c \<and> v \<in> set (alive_list g)
         \<and> int (n div 2) + 1 \<le> c"
    then have "voted = Some v" "map_of (vote_table g) v = Some c" "v \<in> set (alive_list g)"
      "int (n div 2) + 1 \<le> c"
      by simp_all
    then show "\<exists>g'. check_if_day_should_progress g voted = Inr g'
           \<and> \<not> is_alive (player_heap g' v)
           \<and> (\<forall>p. p \<noteq> v \<longrightarrow> is_alive (player_heap g' p) = is_alive (player_heap g p))
           \<and> alive_list g' = remove1 v (alive_list g)
           \<and> v \<notin> set (alive_list g')
           \<and> day_phase g' = new_phase \<and> day_num g' = new_num
           \<and> no_lynch g' = 0
           \<and> vote_table g' = map (\<lambda>p. (p, 0)) (alive_list g')
           \<and> (\<forall>p \<in> set (players_list g').
                 votes_for (player_heap g' p) = None \<and> \<not> is_no_lynch (player_heap g' p))
           \<and> outbox g' =
                outbox g @
                  [(ToChannel (gen_channel g),
                    if day_phase g = ''Day'' then HasBeenLynched (user (player_heap g v))
                    else HasBeenKilled (user (player_heap g v))),
                   (ToChannel (gen_channel g), ItIsNow new_phase new_num)]"
      by (rule target)
  next
    assume "voted = None
          \<or> (\<exists>v c. voted = Some v \<and> map_of (vote_table g) v = Some c
                \<and> c < int (n div 2) + 1)"
      and "int ((n + 1) div 2) \<le> no_lynch g"
    then show "\<exists>g'. check_if_day_should_progress g voted = Inr g'
                \<and> (\<forall>p. is_alive (player_heap g' p) = is_alive (player_heap g p))
                \<and> alive_list g' = alive_list g
                \<and> day_phase g' = new_phase \<and> day_num g' = new_num
                \<and> no_lynch g' = 0
                \<and> vote_table g' = map (\<lambda>p. (p, 0)) (alive_list g')
                \<and> (\<forall>p \<in> set (players_list g').
                      votes_for (player_heap g' p) = None
                      \<and> \<not> is_no_lynch (player_heap g' p))
                \<and> outbox g' =
                     outbox g @
                       [(ToChannel (gen_channel g), VotedNoLynch),
                        (ToChannel (gen_channel g), ItIsNow new_phase new_num)]"
      using below by (intro none)
  next
    assume "voted = None
          \<or> (\<exists>v c. voted = Some v \<and> map_of (vote_table g) v = Some c
                \<and> c < int (n div 2) + 1)"
      and "no_lynch g < int ((n + 1) div 2)"
    then show "check_if_day_should_progress g voted = Inr g"
      using below by (intro quiet)
  next
    fix h :: MafiaGame and message :: discord_message and player target rest lynched
    assume "is_ongoing h \<and> map_of (user_to_player h) (author message) = Some player
           \<and> is_alive (player_heap h player) \<and> mentions message = target # rest
           \<and> map_of (user_to_player h) target = Some lynched
           \<and> is_alive (player_heap h lynched)"
    then show "vote_to_lynch h message =
             bind_error (cast_lynch_vote h message player target lynched)
               (\<lambda>g1. check_if_day_should_progress (print_votes g1) (Some lynched))"
      by (intro vote_to_lynch_evaluates) simp_all
  next
    fix h :: MafiaGame and message :: discord_message and player
    assume "is_ongoing h \<and> map_of (user_to_player h) (author message) = Some player
           \<and> is_alive (player_heap h player) \<and> \<not> is_no_lynch (player_heap h player)"
    then show "vote_no_lynch h message =
             bind_error (cast_no_lynch_vote h player)
               (\<lambda>g2. check_if_day_should_progress
                        (print_votes
                           (send_message g2 (ToChannel (gen_channel g2))
                              (VotesNoLynch (user (player_heap g2 player)))))
                        None)"
      by (intro vote_no_lynch_evaluates) simp_all
  qed
qed

lemma demo_majority_facts:
  "length (vote_table demo_majority) = length (alive_list demo_majority)"
  "distinct (alive_list demo_majority)"
  "alive_list demo_majority = [0, 1, 2]"
  "map_of (vote_table demo_majority) 1 = Some 2"
  "no_lynch demo_majority = 0"
  "is_alive (player_heap demo_majority 1)"
  "day_phase demo_majority = ''Day''" "day_num demo_majority = 1"
  "outbox demo_majority = []" "gen_channel demo_majority = Some 7"
  "user (player_heap demo_majority 1) = 2"
  "is_alive (player_heap demo_majority 0)"
  by (simp_all add: demo_majority_def demo_day_def demo_lists_def demo_heap_def alive_list_def)

lemma demo_no_lynch_facts:
  "length (vote_table demo_no_lynch) = length (alive_list demo_no_lynch)"
  "distinct (alive_list demo_no_lynch)"
  "alive_list demo_no_lynch = [0, 1, 2]"
  "no_lynch demo_no_lynch = 2"
  "day_phase demo_no_lynch = ''Day''" "day_num demo_no_lynch = 1"
  "outbox demo_no_lynch = []" "gen_channel demo_no_lynch = Some 7"
  "is_alive (player_heap demo_no_lynch 1)"
  by (simp_all add: demo_no_lynch_def demo_day_def demo_lists_def demo_heap_def alive_list_def)

lemma demo_voted_facts:
  "length (vote_table demo_voted) = length (alive_list demo_voted)"
  "distinct (alive_list demo_voted)"
  "map_of (vote_table demo_voted) 1 = Some 1"
  "no_lynch demo_voted = 1"
  "alive_list demo_voted = [0, 1, 2]"
  by (simp_all add: demo_voted_def demo_day_def demo_lists_def alive_list_def)

theorem check_if_day_should_progress_majority_witness:
  "(\<exists>g'. check_if_day_should_progress demo_majority (Some 1) = Inr g'
         \<and> is_alive (player_heap demo_majority 1) \<and> day_phase demo_majority = ''Day''
         \<and> \<not> is_alive (player_heap g' 1) \<and> is_alive (player_heap g' 0)
         \<and> alive_list g' = [0, 2]
         \<and> day_phase g' = ''Night'' \<and> day_num g' = 1 \<and> no_lynch g' = 0
         \<and> vote_table g' = [(0, 0), (2, 0)]
         \<and> outbox g' = [(ToChannel (Some 7), HasBeenLynched 2),
                         (ToChannel (Some 7), ItIsNow ''Night'' 1)])
   \<and> (\<exists>g'. check_if_day_should_progress demo_no_lynch None = Inr g'
         \<and> is_alive (player_heap g' 1)
         \<and> alive_list g' = [0, 1, 2]
         \<and> day_phase g' = ''Night'' \<and> day_num g' = 1 \<and> no_lynch g' = 0
         \<and> vote_table g' = [(0, 0), (1, 0), (2, 0)]
         \<and> outbox g' = [(ToChannel (Some 7), VotedNoLynch),
                         (ToChannel (Some 7), ItIsNow ''Night'' 1)])
   \<and> check_if_day_should_progress demo_voted (Some 1) = Inr demo_voted"
proof -
  note m = check_if_day_should_progress_majority
             [OF demo_majority_facts(1) demo_majority_facts(2), of "Some 1"]
  have pm: "Some 1 = Some 1 \<and> map_of (vote_table demo_majority) 1 = Some 2
            \<and> 1 \<in> set (alive_list demo_majority)
            \<and> int (length (alive_list demo_majority) div 2) + 1 \<le> 2"
    by (simp add: demo_majority_facts del: One_nat_def)
  from m [THEN conjunct1, rule_format, OF pm]
  obtain g' where g:
    "check_if_day_should_progress demo_majority (Some 1) = Inr g'"
    "\<not> is_alive (player_heap g' 1)"
    "\<forall>p. p \<noteq> 1 \<longrightarrow> is_alive (player_heap g' p) = is_alive (player_heap demo_majority p)"
    "alive_list g' = remove1 1 (alive_list demo_majority)"
    "day_phase g' = (if day_phase demo_majority = ''Day'' then ''Night'' else ''Day'')"
    "day_num g' = (if day_phase demo_majority = ''Day'' then day_num demo_majority
                   else day_num demo_majority + 1)"
    "no_lynch g' = 0"
    "vote_table g' = map (\<lambda>p. (p, 0)) (alive_list g')"
    "outbox g' =
       outbox demo_majority @
         [(ToChannel (gen_channel demo_majority),
           if day_phase demo_majority = ''Day''
           then HasBeenLynched (user (player_heap demo_majority 1))
           else HasBeenKilled (user (player_heap demo_majority 1))),
          (ToChannel (gen_channel demo_majority),
           ItIsNow (if day_phase demo_majority = ''Day'' then ''Night'' else ''Day'')
             (if day_phase demo_majority = ''Day'' then day_num demo_majority
              else day_num demo_majority + 1))]"
    by blast
  have "is_alive (player_heap g' 0)"
    using g(3) by (simp add: demo_majority_facts)
  then have a: "\<exists>g'. check_if_day_should_progress demo_majority (Some 1) = Inr g'
         \<and> is_alive (player_heap demo_majority 1) \<and> day_phase demo_majority = ''Day''
         \<and> \<not> is_alive (player_heap g' 1) \<and> is_alive (player_heap g' 0)
         \<and> alive_list g' = [0, 2]
         \<and> day_phase g' = ''Night'' \<and> day_num g' = 1 \<and> no_lynch g' = 0
         \<and> vote_table g' = [(0, 0), (2, 0)]
         \<and> outbox g' = [(ToChannel (Some 7), HasBeenLynched 2),
                         (ToChannel (Some 7), ItIsNow ''Night'' 1)]"
    using g(1,2,4-9)
    by (intro exI [of _ g']) (simp add: demo_majority_facts del: One_nat_def)
  note n = check_if_day_should_progress_majority
             [OF demo_no_lynch_facts(1) demo_no_lynch_facts(2), of None]
  have pn: "int ((length (alive_list demo_no_lynch) + 1) div 2) \<le> no_lynch demo_no_lynch"
    by (simp add: demo_no_lynch_facts)
  from n [THEN conjunct2, THEN conjunct1, rule_format, OF disjI1 [OF refl],
          THEN conjunct1, rule_format, OF pn]
  obtain h' where h:
    "check_if_day_should_progress demo_no_lynch None = Inr h'"
    "\<forall>p. is_alive (player_heap h' p) = is_alive (player_heap demo_no_lynch p)"
    "alive_list h' = alive_list demo_no_lynch"
    "day_phase h' = (if day_phase demo_no_lynch = ''Day'' then ''Night'' else ''Day'')"
    "day_num h' = (if day_phase demo_no_lynch = ''Day'' then day_num demo_no_lynch
                   else day_num demo_no_lynch + 1)"
    "no_lynch h' = 0"
    "vote_table h' = map (\<lambda>p. (p, 0)) (alive_list h')"
    "outbox h' =
       outbox demo_no_lynch @
         [(ToChannel (gen_channel demo_no_lynch), VotedNoLynch),
          (ToChannel (gen_channel demo_no_lynch),
           ItIsNow (if day_phase demo_no_lynch = ''Day'' then ''Night'' else ''Day'')
             (if day_phase demo_no_lynch = ''Day'' then day_num demo_no_lynch
              else day_num demo_no_lynch + 1))]"
    by blast
  have b: "\<exists>g'. check_if_day_should_progress demo_no_lynch None = Inr g'
         \<and> is_alive (player_heap g' 1)
         \<and> alive_list g' = [0, 1, 2]
         \<and> day_phase g' = ''Night'' \<and> day_num g' = 1 \<and> no_lynch g' = 0
         \<and> vote_table g' = [(0, 0), (1, 0), (2, 0)]
         \<and> outbox g' = [(ToChannel (Some 7), VotedNoLynch),
                         (ToChannel (Some 7), ItIsNow ''Night'' 1)]"
    using h
    by (intro exI [of _ h']) (simp add: demo_no_lynch_facts del: One_nat_def)
  note v = check_if_day_should_progress_majority
             [OF demo_voted_facts(1) demo_voted_facts(2), of "Some 1"]
  have pv: "Some 1 = None
            \<or> (\<exists>v c. Some 1 = Some v \<and> map_of (vote_table demo_voted) v = Some c
                  \<and> c < int (length (alive_list demo_voted) div 2) + 1)"
    by (simp add: demo_voted_facts del: One_nat_def)
  have qv: "no_lynch demo_voted < int ((length (alive_list demo_voted) + 1) div 2)"
    by (simp add: demo_voted_facts)
  have c: "check_if_day_should_progress demo_voted (Some 1) = Inr demo_voted"
    by (rule v [THEN conjunct2, THEN conjunct1, rule_format, OF pv,
                THEN conjunct2, rule_format, OF qv])
  from a b c show ?thesis by (intro conjI)
qed

subsection \<open>\<open>give_roles\<close>\<close>

lemma assign_role_heap:
  "player_heap (assign_role ps r g) p =
     (if p \<in> set ps then (player_heap g p)\<lparr>role := r\<rparr> else player_heap g p)"
  by (induction ps arbitrary: g) (auto simp: set_role_def)

lemma assign_role_fields:
  "list_heap (assign_role ps r g) = list_heap g"
  "next_list (assign_role ps r g) = next_list g"
  "players (assign_role ps r g) = players g"
  "roles (assign_role ps r g) = roles g"
  "gen_channel (assign_role ps r g) = gen_channel g"
  "outbox (assign_role ps r g) = outbox g"
  "next_player (assign_role ps r g) = next_player g"
  by (induction ps arbitrary: g) (simp_all add: set_role_def)

lemma pm_roles_outbox:
  "outbox (pm_roles ps g) =
     outbox g @ map (\<lambda>p. (ToUser (user (player_heap g p)),
                          YouAreA (str_role (role (player_heap g p))))) ps"
  "player_heap (pm_roles ps g) = player_heap g"
  "list_heap (pm_roles ps g) = list_heap g"
  "mafia (pm_roles ps g) = mafia g"
  "townies (pm_roles ps g) = townies g"
  "players (pm_roles ps g) = players g"
  "alive (pm_roles ps g) = alive g"
  "user_to_player (pm_roles ps g) = user_to_player g"
  "gen_channel (pm_roles ps g) = gen_channel g"
  "next_player (pm_roles ps g) = next_player g"
  by (induction ps arbitrary: g) (simp_all add: send_message_def)

lemma send_allies_outbox:
  "outbox (send_allies ms g) =
     outbox g @ map (\<lambda>m. (ToChannel (gen_channel g),
                          YourAlliesAre (map (\<lambda>ally. user (player_heap g ally))
                                           (remove1 m (list_heap g (mafia g)))))) ms"
  "player_heap (send_allies ms g) = player_heap g"
  "list_heap (send_allies ms g) = list_heap g"
  "mafia (send_allies ms g) = mafia g"
  "townies (send_allies ms g) = townies g"
  "players (send_allies ms g) = players g"
  "alive (send_allies ms g) = alive g"
  "user_to_player (send_allies ms g) = user_to_player g"
  "gen_channel (send_allies ms g) = gen_channel g"
  "next_player (send_allies ms g) = next_player g"
  by (induction ms arbitrary: g) (simp_all add: send_message_def Let_def)

lemma give_roles_fields:
  fixes g :: MafiaGame and rng :: random_source
  defines "ps \<equiv> list_heap g (players g)"
  defines "ms \<equiv> random_sample rng ps (nat (py_round (real (length ps) / 4)))"
  defines "ts \<equiv> filter (\<lambda>p. p \<notin> set ms) (remdups ps)"
  defines "lh \<equiv> (list_heap g)(next_list g := ms, Suc (next_list g) := ts)"
  shows "players (give_roles g rng) = players g"
    and "alive (give_roles g rng) = players g"
    and "mafia (give_roles g rng) = next_list g"
    and "townies (give_roles g rng) = Suc (next_list g)"
    and "list_heap (give_roles g rng) = lh"
    and "next_player (give_roles g rng) = next_player g"
    and "gen_channel (give_roles g rng) = gen_channel g"
    and "player_heap (give_roles g rng) p =
           (if p \<in> set ts then (player_heap g p)\<lparr>role := Some TownRole\<rparr>
            else if p \<in> set ms then (player_heap g p)\<lparr>role := Some (MafiaRole [])\<rparr>
            else player_heap g p)"
    and "user_to_player (give_roles g rng) =
           AList.updates (map (\<lambda>p. user (player_heap (give_roles g rng) p)) (lh (players g)))
             (lh (players g)) []"
    and "outbox (give_roles g rng) =
           outbox g @ [(ToChannel (gen_channel g), AssigningRoles),
                       (ToChannel (gen_channel g), PMingRoles)]
           @ map (\<lambda>p. (ToUser (user (player_heap (give_roles g rng) p)),
                        YouAreA (str_role (role (player_heap (give_roles g rng) p)))))
               (lh (players g))
           @ (if length ms > 1
              then map (\<lambda>m. (ToChannel (gen_channel g),
                              YourAlliesAre (map (\<lambda>ally. user (player_heap (give_roles g rng) ally))
                                               (remove1 m ms)))) ms
              else [])"
  unfolding ps_def ms_def ts_def lh_def
  by (simp_all add: give_roles_def Let_def new_list_def send_message_def
        assign_role_heap assign_role_fields pm_roles_outbox send_allies_outbox
        cong: if_cong)

lemma demo_lobby_sample:
  "random_sample demo_rng (list_heap demo_lobby (players demo_lobby))
     (nat (py_round (real (length (list_heap demo_lobby (players demo_lobby))) / 4))) = [0, 1]"
proof -
  have "[0..<2] = [0, Suc 0]" by (simp add: upt_rec)
  then show ?thesis
    by (simp add: demo_lobby_def demo_rng_def random_sample_def py_round_def)
qed

text \<open>
  C8, evaluated. In a game of eight players the two Mafia players are users 1 and 2. Every
  player gets a private message with the role, addressed to the player's user. The two
  messages that name the allies are both addressed to the general channel 7, and no
  message to user 1 or user 2 names an ally.
\<close>

theorem give_roles_allies_go_to_channel:
  "outbox (give_roles demo_lobby demo_rng) =
     [(ToChannel (Some 7), Opening 10),
      (ToChannel (Some 7), AssigningRoles),
      (ToChannel (Some 7), PMingRoles),
      (ToUser 1, YouAreA ''Mafia ''),
      (ToUser 2, YouAreA ''Mafia ''),
      (ToUser 3, YouAreA ''Townie''),
      (ToUser 4, YouAreA ''Townie''),
      (ToUser 5, YouAreA ''Townie''),
      (ToUser 6, YouAreA ''Townie''),
      (ToUser 7, YouAreA ''Townie''),
      (ToUser 8, YouAreA ''Townie''),
      (ToChannel (Some 7), YourAlliesAre [2]),
      (ToChannel (Some 7), YourAlliesAre [1])]"
  unfolding give_roles_fields(10) give_roles_fields(8) demo_lobby_sample
  by (simp add: demo_lobby_def Player_init_def)

lemma give_roles_aliases_alive:
  "alive (give_roles g rng) = players (give_roles g rng)"
  by (simp add: give_roles_fields)

lemma kill_player_aliased:
  assumes "kill_player g p = Inr g'" and "alive g = players g"
  shows "players_list g' = remove1 p (players_list g)"
    and "alive_list g' = remove1 p (players_list g)"
  using kill_player_fields [OF assms(1)] assms(2)
  by (simp_all add: players_list_def alive_list_def)

lemma demo_lobby_roster:
  "list_heap (give_roles demo_lobby demo_rng) (players (give_roles demo_lobby demo_rng))
     = [0, 1, 2, 3, 4, 5, 6, 7]"
  unfolding give_roles_fields
  by (simp add: demo_lobby_def)

text \<open>
  C2, evaluated. After \<open>give_roles\<close> the attributes \<open>alive\<close> and \<open>players\<close> hold the same
  list object, so \<open>kill_player\<close>, which removes the player from the list that \<open>alive\<close>
  holds, removes the player from the roster too: in the game of eight, killing player 1
  leaves the players list without it.
\<close>

theorem kill_player_removes_from_players:
  "players_list (give_roles demo_lobby demo_rng) = [0, 1, 2, 3, 4, 5, 6, 7]
   \<and> (\<exists>g'. kill_player (give_roles demo_lobby demo_rng) 1 = Inr g'
          \<and> \<not> is_alive (player_heap g' 1)
          \<and> alive_list g' = [0, 2, 3, 4, 5, 6, 7]
          \<and> players_list g' = [0, 2, 3, 4, 5, 6, 7])"
proof -
  let ?G = "give_roles demo_lobby demo_rng"
  have r: "players_list ?G = [0, 1, 2, 3, 4, 5, 6, 7]"
    using demo_lobby_roster by (simp add: players_list_def)
  have "1 \<in> set (list_heap ?G (alive ?G))"
    using demo_lobby_roster by (simp add: give_roles_aliases_alive)
  then obtain g' where k: "kill_player ?G 1 = Inr g'"
    using kill_player_succeeds by blast
  have "\<not> is_alive (player_heap g' 1)"
    using kill_player_fields(3) [OF k] by simp
  moreover have "players_list g' = [0, 2, 3, 4, 5, 6, 7]" "alive_list g' = [0, 2, 3, 4, 5, 6, 7]"
    using kill_player_aliased [OF k give_roles_aliases_alive] r by simp_all
  ultimately show ?thesis using r k by blast
qed

subsection \<open>Role assignment\<close>

lemma py_round_quarter_le: "nat (py_round (real n / 4)) \<le> n"
  unfolding py_round_quarter by (auto split: if_splits)

lemma sample_distinct:
  assumes "valid_sample (length ps) k idxs" and "distinct ps"
  shows "distinct (map (\<lambda>i. ps ! i) idxs)"
    and "set (map (\<lambda>i. ps ! i) idxs) \<subseteq> set ps"
    and "length (map (\<lambda>i. ps ! i) idxs) = k"
proof -
  have lt: "\<forall>i \<in> set idxs. i < length ps" and d: "distinct idxs" and l: "length idxs = k"
    using assms(1) by (auto simp: valid_sample_def)
  have "inj_on (\<lambda>i. ps ! i) (set idxs)"
    using lt assms(2) by (auto simp: inj_on_def nth_eq_iff_index_eq)
  then show "distinct (map (\<lambda>i. ps ! i) idxs)"
    using d by (simp add: distinct_map)
  show "set (map (\<lambda>i. ps ! i) idxs) \<subseteq> set ps"
    using lt by auto
  show "length (map (\<lambda>i. ps ! i) idxs) = k"
    using l by simp
qed

lemma length_filter_notin:
  assumes "distinct ps" and "distinct ms" and "set ms \<subseteq> set ps"
  shows "length (filter (\<lambda>p. p \<notin> set ms) ps) = length ps - length ms"
proof -
  have "length (filter (\<lambda>p. p \<notin> set ms) ps) = card (set (filter (\<lambda>p. p \<notin> set ms) ps))"
    using assms(1) by (metis distinct_card distinct_filter)
  also have "set (filter (\<lambda>p. p \<notin> set ms) ps) = set ps - set ms" by auto
  also have "card (set ps - set ms) = card (set ps) - card (set ms)"
    using assms(3) by (simp add: card_Diff_subset)
  finally show ?thesis
    using assms(1,2) by (simp add: distinct_card)
qed

lemma lookup_updates_exists:
  assumes "p \<in> set ps"
  shows "\<exists>q \<in> set ps. map_of (AList.updates (map f ps) ps []) (f p) = Some q \<and> f q = f p"
proof -
  let ?m = "map_of (rev (zip (map f ps) ps))"
  have m: "map_of (AList.updates (map f ps) ps []) = ?m"
    by (simp add: AList.updates_conv' map_upds_def)
  have "f p \<in> fst ` set (rev (zip (map f ps) ps))"
    using assms by (force simp: set_zip in_set_conv_nth)
  then obtain q where q: "?m (f p) = Some q"
    by (metis domD dom_map_of_conv_image_fst)
  then have "(f p, q) \<in> set (zip (map f ps) ps)"
    using map_of_SomeD by fastforce
  then have "q \<in> set ps \<and> f q = f p"
    by (auto simp: set_zip)
  with q m show ?thesis by auto
qed

lemma lookup_updates_distinct:
  assumes "p \<in> set ps" and "distinct (map f ps)"
  shows "map_of (AList.updates (map f ps) ps []) (f p) = Some p"
proof -
  obtain q where q: "q \<in> set ps" "map_of (AList.updates (map f ps) ps []) (f p) = Some q"
    "f q = f p"
    using lookup_updates_exists [OF assms(1)] by blast
  have "inj_on f (set ps)"
    using assms(2) by (simp add: distinct_map)
  then have "q = p" using q(1,3) assms(1) by (auto dest: inj_onD)
  with q(2) show ?thesis by simp
qed

lemma lookup_updates_keys:
  "fst ` set (AList.updates (map f ps) ps []) = f ` set ps"
proof -
  have "fst ` set (AList.updates (map f ps) ps []) = dom (map_of (AList.updates (map f ps) ps []))"
    by (simp add: dom_map_of_conv_image_fst)
  also have "\<dots> = f ` set ps"
    by (simp add: AList.updates_conv')
  finally show ?thesis .
qed

lemma lookup_updates_last:
  "map_of (AList.updates (map f ps) ps al) k =
     (if filter (\<lambda>p. f p = k) ps = [] then map_of al k
      else Some (last (filter (\<lambda>p. f p = k) ps)))"
proof (induction ps arbitrary: al)
  case Nil
  then show ?case by (simp add: AList.updates_def)
next
  case (Cons p ps)
  show ?case
    by (simp add: Cons.IH AList.update_conv')
qed

lemma lookup_updates_values:
  "snd ` set (AList.updates (map f ps) ps []) =
     (\<lambda>p. last (filter (\<lambda>q. f q = f p) ps)) ` set ps"
proof -
  let ?al = "AList.updates (map f ps) ps []"
  have "distinct (map fst ?al)"
    by (rule AList.distinct_updates) simp
  then have "snd ` set ?al = ran (map_of ?al)"
    by (simp add: ran_distinct)
  also have "\<dots> = (\<lambda>p. last (filter (\<lambda>q. f q = f p) ps)) ` set ps"
  proof (intro set_eqI iffI)
    fix v
    assume "v \<in> ran (map_of ?al)"
    then obtain k where k: "map_of ?al k = Some v"
      by (auto simp: ran_def)
    then have ne: "filter (\<lambda>p. f p = k) ps \<noteq> []"
      and v: "v = last (filter (\<lambda>p. f p = k) ps)"
      by (auto simp: lookup_updates_last split: if_splits)
    from ne have "v \<in> set (filter (\<lambda>p. f p = k) ps)"
      unfolding v by (rule last_in_set)
    then have "v \<in> set ps" "f v = k" by auto
    then show "v \<in> (\<lambda>p. last (filter (\<lambda>q. f q = f p) ps)) ` set ps"
      using v by blast
  next
    fix v
    assume "v \<in> (\<lambda>p. last (filter (\<lambda>q. f q = f p) ps)) ` set ps"
    then obtain p where p: "p \<in> set ps" "v = last (filter (\<lambda>q. f q = f p) ps)"
      by blast
    then have "filter (\<lambda>q. f q = f p) ps \<noteq> []"
      by (auto simp: filter_empty_conv)
    then have "map_of ?al (f p) = Some v"
      using p(2) by (simp add: lookup_updates_last)
    then show "v \<in> ran (map_of ?al)"
      by (auto simp: ran_def)
  qed
  finally show ?thesis .
qed

lemma lookup_updates_complete:
  assumes "distinct ps"
  shows "set ps \<subseteq> snd ` set (AList.updates (map f ps) ps []) \<longleftrightarrow> distinct (map f ps)"
proof
  assume d: "distinct (map f ps)"
  show "set ps \<subseteq> snd ` set (AList.updates (map f ps) ps [])"
  proof
    fix p
    assume p: "p \<in> set ps"
    have "map_of (AList.updates (map f ps) ps []) (f p) = Some p"
      using p d by (rule lookup_updates_distinct)
    then have "(f p, p) \<in> set (AList.updates (map f ps) ps [])"
      by (rule map_of_SomeD)
    then show "p \<in> snd ` set (AList.updates (map f ps) ps [])"
      by force
  qed
next
  assume s: "set ps \<subseteq> snd ` set (AList.updates (map f ps) ps [])"
  let ?L = "\<lambda>u. last (filter (\<lambda>q. f q = u) ps)"
  have "snd ` set (AList.updates (map f ps) ps []) = ?L ` (f ` set ps)"
    unfolding lookup_updates_values by (simp add: image_image)
  then have "card (set ps) \<le> card (?L ` (f ` set ps))"
    using s by (simp add: card_mono)
  also have "\<dots> \<le> card (f ` set ps)"
    by (rule card_image_le) simp
  finally have "card (set ps) \<le> card (f ` set ps)" .
  moreover have "card (f ` set ps) \<le> card (set ps)"
    by (rule card_image_le) simp
  ultimately have "card (f ` set ps) = card (set ps)" by simp
  then have "inj_on f (set ps)"
    by (intro eq_card_imp_inj_on) simp_all
  then show "distinct (map f ps)"
    using assms by (simp add: distinct_map)
qed

lemma give_roles_user:
  "user (player_heap (give_roles g rng) p) = user (player_heap g p)"
  by (simp add: give_roles_fields(8))

lemma give_roles_roster:
  "players g < next_list g \<Longrightarrow>
   list_heap (give_roles g rng) (players g) = list_heap g (players g)"
  by (simp add: give_roles_fields(5))

lemma give_roles_lookup:
  assumes "players g < next_list g"
  shows "user_to_player (give_roles g rng) =
           AList.updates (map (\<lambda>p. user (player_heap g p)) (list_heap g (players g)))
             (list_heap g (players g)) []"
proof -
  have "list_heap (give_roles g rng) (players g) = list_heap g (players g)"
    using assms by (rule give_roles_roster)
  then show ?thesis
    using give_roles_fields(9) [of g rng]
    by (simp add: give_roles_fields(5) give_roles_user)
qed

text \<open>
  C7, as the claim states it, fails where an identity joined twice: \<open>dict(zip(users,
  self.players))\<close> keeps one entry per identity, the last player, so the first player of
  user 5 is in the roster and not in the lookup.
\<close>

theorem give_roles_lookup_counterexample:
  "players_list (give_roles demo_lobby_twice demo_rng) = [0, 1]
   \<and> user_to_player (give_roles demo_lobby_twice demo_rng) = [(5, 1)]
   \<and> \<not> set (players_list (give_roles demo_lobby_twice demo_rng))
          \<subseteq> snd ` set (user_to_player (give_roles demo_lobby_twice demo_rng))"
proof -
  let ?G = "give_roles demo_lobby_twice demo_rng"
  have a: "players demo_lobby_twice < next_list demo_lobby_twice"
    by (simp add: demo_lobby_twice_def demo_lobby_def)
  have l: "players_list ?G = [0, 1]"
    using give_roles_roster [OF a, of demo_rng]
    by (simp add: players_list_def give_roles_fields(1) demo_lobby_twice_def demo_lobby_def)
  have u: "user_to_player ?G = [(5, 1)]"
    unfolding give_roles_lookup [OF a]
    by (simp add: demo_lobby_twice_def demo_lobby_def Player_init_def AList.updates_def)
  show ?thesis
    unfolding l u by simp
qed

text \<open>
  C7, amended. For a roster of \<open>n\<close> distinct \<open>Player\<close> objects held in an allocated list
  object, and a random source that answers with \<open>round(n / 4)\<close> distinct positions of the
  roster: the Mafia list has exactly \<open>round(n / 4)\<close> distinct players of the roster, each
  with the Mafia role; every other player of the roster has the Town role and is in the
  townies list; the two lists are disjoint, their union is the roster, the townies are
  \<open>n - round(n / 4)\<close>; \<open>alive\<close> holds the list object of \<open>players\<close>, the whole roster; the
  keys of the lookup are the identities of the roster, and every identity of the roster
  maps to the last player of the roster with that identity (the roster is in joining
  order); the lookup contains every player of the roster exactly when no identity occurs
  twice in the roster; for \<open>n = 8\<close> there are 2 Mafia and 6 Town.
\<close>

theorem give_roles_assignment:
  fixes g :: MafiaGame and rng :: random_source
  defines "G \<equiv> give_roles g rng"
  defines "ps \<equiv> players_list g"
  defines "k \<equiv> nat (py_round (real (length (players_list g)) / 4))"
  assumes dist: "distinct (players_list g)"
      and alloc: "players g < next_list g"
      and draw: "valid_sample (length (players_list g)) k (rng (length (players_list g)) k)"
  shows
    "length (mafia_list G) = k \<and> distinct (mafia_list G) \<and> set (mafia_list G) \<subseteq> set ps
     \<and> (\<forall>p \<in> set (mafia_list G). role (player_heap G p) = Some (MafiaRole ''''))
     \<and> (\<forall>p \<in> set ps. p \<notin> set (mafia_list G) \<longrightarrow>
           role (player_heap G p) = Some TownRole \<and> p \<in> set (townies_list G))
     \<and> set (mafia_list G) \<inter> set (townies_list G) = {}
     \<and> set (mafia_list G) \<union> set (townies_list G) = set ps
     \<and> length (townies_list G) = length ps - k
     \<and> alive G = players G \<and> alive_list G = ps \<and> players_list G = ps
     \<and> fst ` set (user_to_player G) = (\<lambda>p. user (player_heap G p)) ` set ps
     \<and> (\<forall>p \<in> set ps. \<exists>q \<in> set ps.
           map_of (user_to_player G) (user (player_heap G p)) = Some q
           \<and> user (player_heap G q) = user (player_heap G p))
     \<and> (\<forall>p \<in> set ps.
           map_of (user_to_player G) (user (player_heap G p)) =
             Some (last (filter (\<lambda>q. user (player_heap G q) = user (player_heap G p)) ps)))
     \<and> (distinct (map (\<lambda>p. user (player_heap G p)) ps) \<longrightarrow>
           (\<forall>p \<in> set ps. map_of (user_to_player G) (user (player_heap G p)) = Some p))
     \<and> (set ps \<subseteq> snd ` set (user_to_player G)
          \<longleftrightarrow> distinct (map (\<lambda>p. user (player_heap G p)) ps))
     \<and> (length ps = 8 \<longrightarrow> length (mafia_list G) = 2 \<and> length (townies_list G) = 6)"
proof -
  let ?ms = "random_sample rng (list_heap g (players g))
               (nat (py_round (real (length (list_heap g (players g))) / 4)))"
  let ?ts = "filter (\<lambda>p. p \<notin> set ?ms) (remdups (list_heap g (players g)))"
  have ps: "ps = list_heap g (players g)"
    by (simp add: ps_def players_list_def)
  have ms_eq: "?ms = map (\<lambda>i. ps ! i) (rng (length ps) k)"
    by (simp add: random_sample_def ps k_def players_list_def)
  have draw': "valid_sample (length ps) k (rng (length ps) k)"
    using draw by (simp add: ps_def)
  have dps: "distinct ps" using dist by (simp add: ps_def)
  have ms: "distinct ?ms" "set ?ms \<subseteq> set ps" "length ?ms = k"
    unfolding ms_eq using sample_distinct [OF draw' dps] by auto
  have ts_eq: "?ts = filter (\<lambda>p. p \<notin> set ?ms) ps"
    using dps by (simp add: ps distinct_remdups_id)
  have ne: "players g \<noteq> next_list g" "players g \<noteq> Suc (next_list g)"
    using alloc by auto
  have mafia: "mafia_list G = ?ms"
    by (simp add: mafia_list_def G_def give_roles_fields)
  have townies: "townies_list G = ?ts"
    by (simp add: townies_list_def G_def give_roles_fields)
  have roster: "list_heap G (players g) = ps"
    using give_roles_roster [OF alloc] by (simp add: G_def ps)
  have lists: "alive G = players G" "alive_list G = ps" "players_list G = ps"
    using roster by (simp_all add: alive_list_def players_list_def G_def give_roles_fields)
  have heap: "player_heap G p =
           (if p \<in> set ?ts then (player_heap g p)\<lparr>role := Some TownRole\<rparr>
            else if p \<in> set ?ms then (player_heap g p)\<lparr>role := Some (MafiaRole [])\<rparr>
            else player_heap g p)" for p
    unfolding G_def by (rule give_roles_fields(8))
  have c1: "length (mafia_list G) = k \<and> distinct (mafia_list G) \<and> set (mafia_list G) \<subseteq> set ps"
    using ms mafia by simp
  have c2: "\<forall>p \<in> set (mafia_list G). role (player_heap G p) = Some (MafiaRole '''')"
    unfolding mafia by (simp add: heap)
  have c3: "\<forall>p \<in> set ps. p \<notin> set (mafia_list G) \<longrightarrow>
           role (player_heap G p) = Some TownRole \<and> p \<in> set (townies_list G)"
    unfolding mafia townies ts_eq by (simp add: heap ts_eq)
  have c4: "set (mafia_list G) \<inter> set (townies_list G) = {}"
    unfolding mafia townies by auto
  have c5: "set (mafia_list G) \<union> set (townies_list G) = set ps"
    unfolding mafia townies ts_eq using ms(2) by auto
  have c6: "length (townies_list G) = length ps - k"
    unfolding townies ts_eq using length_filter_notin [OF dps ms(1) ms(2)] ms(3) by simp
  have u2p: "user_to_player G =
               AList.updates (map (\<lambda>p. user (player_heap G p)) ps) ps []"
    using give_roles_lookup [OF alloc, of rng]
    by (simp add: G_def ps give_roles_user)
  have c7: "fst ` set (user_to_player G) = (\<lambda>p. user (player_heap G p)) ` set ps"
    unfolding u2p by (rule lookup_updates_keys)
  have c8: "\<forall>p \<in> set ps. \<exists>q \<in> set ps.
           map_of (user_to_player G) (user (player_heap G p)) = Some q
           \<and> user (player_heap G q) = user (player_heap G p)"
    unfolding u2p using lookup_updates_exists [of _ ps "\<lambda>p. user (player_heap G p)"] by blast
  have c9: "distinct (map (\<lambda>p. user (player_heap G p)) ps) \<longrightarrow>
           (\<forall>p \<in> set ps. map_of (user_to_player G) (user (player_heap G p)) = Some p)"
    unfolding u2p using lookup_updates_distinct [of _ ps "\<lambda>p. user (player_heap G p)"] by blast
  have c8l: "\<forall>p \<in> set ps.
           map_of (user_to_player G) (user (player_heap G p)) =
             Some (last (filter (\<lambda>q. user (player_heap G q) = user (player_heap G p)) ps))"
    unfolding u2p by (auto simp: lookup_updates_last filter_empty_conv)
  have c9c: "set ps \<subseteq> snd ` set (user_to_player G)
          \<longleftrightarrow> distinct (map (\<lambda>p. user (player_heap G p)) ps)"
    unfolding u2p using dps by (rule lookup_updates_complete)
  have c10: "length ps = 8 \<longrightarrow> length (mafia_list G) = 2 \<and> length (townies_list G) = 6"
  proof
    assume e: "length ps = 8"
    have "py_round (real (8::nat) / 4) = 2" by (simp add: py_round_def)
    then have "k = 2" using e by (simp add: k_def ps_def)
    then show "length (mafia_list G) = 2 \<and> length (townies_list G) = 6"
      using c1 c6 e by simp
  qed
  from c1 c2 c3 c4 c5 c6 lists c7 c8 c8l c9 c9c c10 show ?thesis
    by (intro conjI) (simp_all only:)
qed

lemma demo_lobby_facts:
  "players_list demo_lobby = [0, 1, 2, 3, 4, 5, 6, 7]"
  "players demo_lobby < next_list demo_lobby"
  "nat (py_round (real (length (players_list demo_lobby)) / 4)) = 2"
  "user (player_heap demo_lobby p) = Suc p"
  by (simp_all add: demo_lobby_def players_list_def py_round_def Player_init_def)

lemma demo_lobby_draw:
  "valid_sample (length (players_list demo_lobby))
     (nat (py_round (real (length (players_list demo_lobby)) / 4)))
     (demo_rng (length (players_list demo_lobby))
        (nat (py_round (real (length (players_list demo_lobby)) / 4))))"
proof -
  have "[0..<2] = [0, Suc 0]" by (simp add: upt_rec)
  then show ?thesis
    unfolding demo_lobby_facts(3) by (simp add: demo_lobby_facts(1) valid_sample_def demo_rng_def)
qed

theorem give_roles_assignment_witness:
  "length (mafia_list (give_roles demo_lobby demo_rng)) = 2
   \<and> length (townies_list (give_roles demo_lobby demo_rng)) = 6
   \<and> distinct (mafia_list (give_roles demo_lobby demo_rng))
   \<and> set (mafia_list (give_roles demo_lobby demo_rng))
       \<inter> set (townies_list (give_roles demo_lobby demo_rng)) = {}
   \<and> set (mafia_list (give_roles demo_lobby demo_rng))
       \<union> set (townies_list (give_roles demo_lobby demo_rng)) = set [0, 1, 2, 3, 4, 5, 6, 7]
   \<and> alive (give_roles demo_lobby demo_rng) = players (give_roles demo_lobby demo_rng)
   \<and> alive_list (give_roles demo_lobby demo_rng) = [0, 1, 2, 3, 4, 5, 6, 7]
   \<and> map_of (user_to_player (give_roles demo_lobby demo_rng)) 3 = Some 2
   \<and> set [0, 1, 2, 3, 4, 5, 6, 7] \<subseteq> snd ` set (user_to_player (give_roles demo_lobby demo_rng))"
proof -
  let ?G = "give_roles demo_lobby demo_rng"
  have d: "distinct (players_list demo_lobby)"
    unfolding demo_lobby_facts(1) by simp
  note t = give_roles_assignment [where g = demo_lobby and rng = demo_rng,
             OF d demo_lobby_facts(2) demo_lobby_draw]
  have l8: "length (players_list demo_lobby) = 8"
    unfolding demo_lobby_facts(1) by simp
  have n: "length (mafia_list ?G) = 2 \<and> length (townies_list ?G) = 6"
    using t l8 by blast
  have dm: "distinct (mafia_list ?G)"
    using t by blast
  have i: "set (mafia_list ?G) \<inter> set (townies_list ?G) = {}"
    using t by blast
  have "set (mafia_list ?G) \<union> set (townies_list ?G) = set (players_list demo_lobby)"
    using t by blast
  then have u: "set (mafia_list ?G) \<union> set (townies_list ?G) = set [0, 1, 2, 3, 4, 5, 6, 7]"
    unfolding demo_lobby_facts(1) .
  have a: "alive ?G = players ?G"
    using t by blast
  have "alive_list ?G = players_list demo_lobby"
    using t by blast
  then have al: "alive_list ?G = [0, 1, 2, 3, 4, 5, 6, 7]"
    unfolding demo_lobby_facts(1) .
  have du: "distinct (map (\<lambda>p. user (player_heap ?G p)) (players_list demo_lobby))"
    unfolding give_roles_user demo_lobby_facts(4) demo_lobby_facts(1) by simp
  have "2 \<in> set (players_list demo_lobby)"
    unfolding demo_lobby_facts(1) by simp
  with t du have "map_of (user_to_player ?G) (user (player_heap ?G 2)) = Some 2"
    by blast
  then have m: "map_of (user_to_player ?G) 3 = Some 2"
    unfolding give_roles_user demo_lobby_facts(4) by simp
  have "set (players_list demo_lobby) \<subseteq> snd ` set (user_to_player ?G)"
    using t du by blast
  then have c: "set [0, 1, 2, 3, 4, 5, 6, 7] \<subseteq> snd ` set (user_to_player ?G)"
    unfolding demo_lobby_facts(1) .
  from n dm i u a al m c show ?thesis by blast
qed

subsection \<open>The tally update of a vote\<close>

lemma update_present_keys:
  "map_of al k = Some c \<Longrightarrow> map fst (AList.update k v al) = map fst al"
  by (simp add: AList.update_keys map_of_eq_None_iff [symmetric] del: map_of_eq_None_iff)

lemma update_present_sum:
  "map_of al k = Some c \<Longrightarrow>
   sum_list (map snd (AList.update k v al)) = sum_list (map snd al) - c + (v::int)"
  by (induction al) (auto split: if_splits)

lemma update_present_length:
  "map_of al k = Some c \<Longrightarrow> length (AList.update k v al) = length al"
  using update_present_keys [of al k c v] by (metis length_map)

lemma print_votes_fields:
  "vote_table (print_votes g) = vote_table g"
  "player_heap (print_votes g) = player_heap g"
  "list_heap (print_votes g) = list_heap g"
  "alive (print_votes g) = alive g"
  "players (print_votes g) = players g"
  "user_to_player (print_votes g) = user_to_player g"
  "next_player (print_votes g) = next_player g"
  "is_ongoing (print_votes g) = is_ongoing g"
  "no_lynch (print_votes g) = no_lynch g"
  "day_phase (print_votes g) = day_phase g"
  "day_num (print_votes g) = day_num g"
  "gen_channel (print_votes g) = gen_channel g"
  by (simp_all add: print_votes_def Let_def send_message_def)

text \<open>
  Lines 356 to 367 of \<open>vote_to_lynch\<close> succeed exactly when the keys they index are in the
  vote table: the previous target of the voter, if there is one, and the new target.
\<close>

lemma cast_lynch_vote_first:
  assumes "votes_for (player_heap g p) = None"
      and "map_of (vote_table g) t = Some c"
  shows "cast_lynch_vote g m p u t =
           Inr (set_votes_for
                  ((send_message
                      (if is_no_lynch (player_heap g p)
                       then (set_is_no_lynch g p False)\<lparr>no_lynch := no_lynch g - 1\<rparr> else g)
                      (ToChannel (gen_channel g)) (VotedFor (author m) u))
                   \<lparr>vote_table := AList.update t (c + 1) (vote_table g)\<rparr>)
                  p (Some t))"
  using assms
  by (simp add: cast_lynch_vote_def Let_def bind_error_def send_message_def
        set_is_no_lynch_def set_votes_for_def)

lemma cast_lynch_vote_change:
  assumes "votes_for (player_heap g p) = Some a"
      and "map_of (vote_table g) a = Some ca"
      and "map_of (AList.update a (ca - 1) (vote_table g)) t = Some c"
  shows "cast_lynch_vote g m p u t =
           Inr (set_votes_for
                  ((send_message
                      (if is_no_lynch (player_heap g p)
                       then (set_is_no_lynch g p False)\<lparr>no_lynch := no_lynch g - 1\<rparr> else g)
                      (ToChannel (gen_channel g)) (ChangedVoteTo (author m) u))
                   \<lparr>vote_table :=
                       AList.update t (c + 1) (AList.update a (ca - 1) (vote_table g))\<rparr>)
                  p (Some t))"
  using assms
  by (simp add: cast_lynch_vote_def Let_def bind_error_def send_message_def
        set_is_no_lynch_def set_votes_for_def)

lemma cast_lynch_vote_cases:
  assumes "cast_lynch_vote g m p u t = Inr g1"
  shows "(votes_for (player_heap g p) = None
           \<and> (\<exists>c. map_of (vote_table g) t = Some c))
         \<or> (\<exists>a ca c. votes_for (player_heap g p) = Some a
               \<and> map_of (vote_table g) a = Some ca
               \<and> map_of (AList.update a (ca - 1) (vote_table g)) t = Some c)"
  using assms
  by (auto simp: cast_lynch_vote_def Let_def bind_error_def send_message_def
        set_is_no_lynch_def set_votes_for_def
      split: option.splits if_splits sum.splits)

lemma cast_lynch_vote_frame:
  assumes "cast_lynch_vote g m p u t = Inr g1"
  shows "list_heap g1 = list_heap g" "alive g1 = alive g" "players g1 = players g"
    "user_to_player g1 = user_to_player g" "next_player g1 = next_player g"
    "is_ongoing g1 = is_ongoing g" "day_phase g1 = day_phase g" "day_num g1 = day_num g"
    "gen_channel g1 = gen_channel g"
    "no_lynch g1 = (if is_no_lynch (player_heap g p) then no_lynch g - 1 else no_lynch g)"
    "player_heap g1 =
       (player_heap g)(p := (player_heap g p)\<lparr>is_no_lynch := False, votes_for := Some t\<rparr>)"
    "outbox g1 =
       outbox g @ [(ToChannel (gen_channel g),
                    if votes_for (player_heap g p) = None then VotedFor (author m) u
                    else ChangedVoteTo (author m) u)]"
  using assms
  by (auto simp: cast_lynch_vote_def Let_def bind_error_def send_message_def
        set_is_no_lynch_def set_votes_for_def
      split: option.splits if_splits sum.splits)

text \<open>\<open>vote_no_lynch\<close>, lines 388 to 393.\<close>

lemma cast_no_lynch_vote_first:
  assumes "votes_for (player_heap g p) = None"
  shows "cast_no_lynch_vote g p =
           Inr ((set_is_no_lynch g p True)\<lparr>no_lynch := no_lynch g + 1\<rparr>)"
  using assms by (simp add: cast_no_lynch_vote_def bind_error_def)

lemma cast_no_lynch_vote_change:
  assumes "votes_for (player_heap g p) = Some a"
      and "map_of (vote_table g) a = Some ca"
  shows "cast_no_lynch_vote g p =
           Inr ((set_is_no_lynch
                   (set_votes_for (g\<lparr>vote_table := AList.update a (ca - 1) (vote_table g)\<rparr>)
                      p None)
                   p True)\<lparr>no_lynch := no_lynch g + 1\<rparr>)"
  using assms
  by (simp add: cast_no_lynch_vote_def bind_error_def set_votes_for_def)

lemma cast_no_lynch_vote_cases:
  assumes "cast_no_lynch_vote g p = Inr g1"
  shows "votes_for (player_heap g p) = None
         \<or> (\<exists>a ca. votes_for (player_heap g p) = Some a \<and> map_of (vote_table g) a = Some ca)"
  using assms
  by (auto simp: cast_no_lynch_vote_def bind_error_def split: option.splits)

lemma cast_no_lynch_vote_frame:
  assumes "cast_no_lynch_vote g p = Inr g1"
  shows "list_heap g1 = list_heap g" "alive g1 = alive g" "players g1 = players g"
    "user_to_player g1 = user_to_player g" "next_player g1 = next_player g"
    "is_ongoing g1 = is_ongoing g" "day_phase g1 = day_phase g" "day_num g1 = day_num g"
    "gen_channel g1 = gen_channel g"
    "no_lynch g1 = no_lynch g + 1"
    "player_heap g1 =
       (player_heap g)(p := (player_heap g p)\<lparr>is_no_lynch := True, votes_for := None\<rparr>)"
    "outbox g1 = outbox g"
  using assms
  by (auto simp: cast_no_lynch_vote_def bind_error_def set_is_no_lynch_def set_votes_for_def
      split: option.splits)

subsection \<open>A whole vote\<close>

lemma vote_to_lynch_quiet:
  assumes "is_ongoing g"
      and "map_of (user_to_player g) (author m) = Some p"
      and "is_alive (player_heap g p)"
      and "mentions m = u # us"
      and "map_of (user_to_player g) u = Some t"
      and "is_alive (player_heap g t)"
      and "cast_lynch_vote g m p u t = Inr g1"
      and "map_of (vote_table g1) t = Some c"
      and "c < int (length (vote_table g1) div 2) + 1"
      and "no_lynch g1 < int ((length (list_heap g1 (alive g1)) + 1) div 2)"
  shows "vote_to_lynch g m = Inr (print_votes g1)"
proof -
  have "vote_to_lynch g m = check_if_day_should_progress (print_votes g1) (Some t)"
    using vote_to_lynch_evaluates [OF assms(1-6)] assms(7) by (simp add: bind_error_def)
  also have "\<dots> = check_no_lynch (print_votes g1)"
    using assms(8,9) by (intro check_target_below [where c = c]) (simp_all add: print_votes_fields)
  also have "\<dots> = Inr (print_votes g1)"
    using assms(10) by (intro check_no_lynch_quiet) (simp add: print_votes_fields)
  finally show ?thesis .
qed

lemma vote_to_lynch_fires:
  assumes "is_ongoing g"
      and "map_of (user_to_player g) (author m) = Some p"
      and "is_alive (player_heap g p)"
      and "mentions m = u # us"
      and "map_of (user_to_player g) u = Some t"
      and "is_alive (player_heap g t)"
      and "cast_lynch_vote g m p u t = Inr g1"
      and "map_of (vote_table g1) t = Some c"
      and "int (length (vote_table g1) div 2) + 1 \<le> c"
      and "t \<in> set (list_heap g1 (alive g1))"
  shows "vote_to_lynch g m =
           Inr (progress_day
                  (set_is_alive
                     ((send_message (print_votes g1) (ToChannel (gen_channel (print_votes g1)))
                         (if day_phase (print_votes g1) = ''Day''
                          then HasBeenLynched (user (player_heap (print_votes g1) t))
                          else HasBeenKilled (user (player_heap (print_votes g1) t))))
                      \<lparr>list_heap :=
                          (list_heap (print_votes g1))
                            (alive (print_votes g1) :=
                               remove1 t (list_heap (print_votes g1) (alive (print_votes g1))))\<rparr>)
                     t False))"
proof -
  have "vote_to_lynch g m = check_if_day_should_progress (print_votes g1) (Some t)"
    using vote_to_lynch_evaluates [OF assms(1-6)] assms(7) by (simp add: bind_error_def)
  then show ?thesis
    using check_target_fires [of "print_votes g1" t c] assms(8,9,10)
    by (simp only: print_votes_fields)
qed

lemma vote_no_lynch_quiet:
  assumes "is_ongoing g"
      and "map_of (user_to_player g) (author m) = Some p"
      and "is_alive (player_heap g p)"
      and "\<not> is_no_lynch (player_heap g p)"
      and "cast_no_lynch_vote g p = Inr g1"
      and "no_lynch g1 < int ((length (list_heap g1 (alive g1)) + 1) div 2)"
  shows "vote_no_lynch g m =
           Inr (print_votes (send_message g1 (ToChannel (gen_channel g1))
                               (VotesNoLynch (user (player_heap g1 p)))))"
proof -
  let ?g2 = "print_votes (send_message g1 (ToChannel (gen_channel g1))
                               (VotesNoLynch (user (player_heap g1 p))))"
  have "vote_no_lynch g m = check_if_day_should_progress ?g2 None"
    using vote_no_lynch_evaluates [OF assms(1-4)] assms(5) by (simp add: bind_error_def)
  also have "\<dots> = check_no_lynch ?g2"
    by (rule check_no_target)
  also have "\<dots> = Inr ?g2"
    using assms(6) by (intro check_no_lynch_quiet) (simp add: print_votes_fields send_message_def)
  finally show ?thesis .
qed

lemma demo_day_facts:
  "is_ongoing demo_day"
  "map_of (user_to_player demo_day) 1 = Some 0"
  "map_of (user_to_player demo_day) 2 = Some 1"
  "map_of (user_to_player demo_day) 3 = Some 2"
  "player_heap demo_day = demo_heap"
  "vote_table demo_day = [(0, 0), (1, 0), (2, 0)]"
  "no_lynch demo_day = 0"
  "alive demo_day = 4" "players demo_day = 4"
  "list_heap demo_day 4 = [0, 1, 2]"
  "day_phase demo_day = ''Day''" "day_num demo_day = 1"
  by (simp_all add: demo_day_def demo_lists_def)

lemma demo_heap_facts:
  "is_alive (demo_heap 0)" "is_alive (demo_heap 1)" "is_alive (demo_heap 2)"
  "votes_for (demo_heap 0) = None" "votes_for (demo_heap 1) = None"
  "votes_for (demo_heap 2) = None"
  "\<not> is_no_lynch (demo_heap 0)" "\<not> is_no_lynch (demo_heap 1)" "\<not> is_no_lynch (demo_heap 2)"
  "user (demo_heap 0) = 1" "user (demo_heap 1) = 2" "user (demo_heap 2) = 3"
  by (simp_all add: demo_heap_def)

lemma cast_lynch_vote_first_table:
  assumes "votes_for (player_heap g p) = None"
      and "map_of (vote_table g) t = Some c"
  shows "\<exists>g1. cast_lynch_vote g m p u t = Inr g1
              \<and> vote_table g1 = AList.update t (c + 1) (vote_table g)"
  unfolding cast_lynch_vote_first [OF assms]
  by (simp add: set_votes_for_def send_message_def set_is_no_lynch_def)

text \<open>
  C6. A game of three users on channel 7 at the start of day 1, \<open>alive\<close> and \<open>players\<close>
  holding one list object as \<open>give_roles\<close> leaves them. User 2 votes for user 1, user 1
  votes for user 2, user 3 votes for user 2: user 2 is lynched and the phase changes from
  Day to Night. \<open>kill_player\<close> has removed the lynched player from the list object that
  \<open>players\<close> holds too, so the loop of \<open>progress_day\<close> over \<open>self.players\<close> does not reach
  it: after the transition the lynched player, still in \<open>user_to_player\<close>, is still
  voting for user 1. The two other players have no vote.
\<close>

theorem progress_day_skips_lynched_player:
  "\<exists>g1 g2 g3.
      vote_to_lynch demo_day \<lparr>author = 2, content = ''vote'', mentions = [1], channel = 7\<rparr>
        = Inr g1
      \<and> vote_to_lynch g1 \<lparr>author = 1, content = ''vote'', mentions = [2], channel = 7\<rparr>
          = Inr g2
      \<and> vote_to_lynch g2 \<lparr>author = 3, content = ''vote'', mentions = [2], channel = 7\<rparr>
          = Inr g3
      \<and> day_phase g2 = ''Day'' \<and> players_list g2 = [0, 1, 2]
      \<and> votes_for (player_heap g2 1) = Some 0
      \<and> day_phase g3 = ''Night'' \<and> day_num g3 = day_num g2
      \<and> \<not> is_alive (player_heap g3 1)
      \<and> alive_list g3 = [0, 2] \<and> players_list g3 = [0, 2]
      \<and> map_of (user_to_player g3) 2 = Some 1
      \<and> votes_for (player_heap g3 1) = Some 0
      \<and> votes_for (player_heap g3 0) = None
      \<and> votes_for (player_heap g3 2) = None"
proof -
  let ?m1 = "\<lparr>author = 2, content = ''vote'', mentions = [1], channel = 7\<rparr>"
  let ?m2 = "\<lparr>author = 1, content = ''vote'', mentions = [2], channel = 7\<rparr>"
  let ?m3 = "\<lparr>author = 3, content = ''vote'', mentions = [2], channel = 7\<rparr>"
  note d = demo_day_facts and h = demo_heap_facts
  obtain c1 where c1: "cast_lynch_vote demo_day ?m1 1 1 0 = Inr c1"
    and t1: "vote_table c1 = [(0, 1), (1, 0), (2, 0)]"
    using cast_lynch_vote_first_table [of demo_day 1 0 0 ?m1 1]
    by (auto simp: d h simp del: One_nat_def)
  note f1 = cast_lynch_vote_frame [OF c1]
  have r1: "vote_to_lynch demo_day ?m1 = Inr (print_votes c1)"
    by (rule vote_to_lynch_quiet [where p = 1 and u = 1 and us = "[]" and t = 0 and c = 1,
          OF _ _ _ _ _ _ c1])
       (simp_all add: d h t1 f1 del: One_nat_def)
  let ?g1 = "print_votes c1"
  have h1: "player_heap c1 =
              demo_heap(1 := (demo_heap 1)\<lparr>is_no_lynch := False, votes_for := Some 0\<rparr>)"
    by (simp add: print_votes_fields f1 d del: One_nat_def)
  obtain c2 where c2: "cast_lynch_vote ?g1 ?m2 0 2 1 = Inr c2"
    and t2: "vote_table c2 = [(0, 1), (1, 1), (2, 0)]"
    using cast_lynch_vote_first_table [of ?g1 0 1 0 ?m2 2]
    by (auto simp: print_votes_fields t1 h1 d h simp del: One_nat_def)
  note f2 = cast_lynch_vote_frame [OF c2]
  have r2: "vote_to_lynch ?g1 ?m2 = Inr (print_votes c2)"
    by (rule vote_to_lynch_quiet [where p = 0 and u = 2 and us = "[]" and t = 1 and c = 1,
          OF _ _ _ _ _ _ c2])
       (simp_all add: print_votes_fields f1 f2 t2 h1 d h del: One_nat_def)
  let ?g2 = "print_votes c2"
  have h2: "player_heap c2 =
              demo_heap(1 := (demo_heap 1)\<lparr>is_no_lynch := False, votes_for := Some 0\<rparr>,
                        0 := (demo_heap 0)\<lparr>is_no_lynch := False, votes_for := Some 1\<rparr>)"
    by (simp add: print_votes_fields f2 h1 del: One_nat_def)
  have l2: "list_heap c2 = demo_lists" "alive c2 = 4" "players c2 = 4"
    "day_phase c2 = ''Day''" "day_num c2 = 1"
    "user_to_player c2 = user_to_player demo_day" "is_ongoing c2"
    by (simp_all add: print_votes_fields f2 f1 demo_day_def del: One_nat_def)
  obtain c3 where c3: "cast_lynch_vote ?g2 ?m3 2 2 1 = Inr c3"
    and t3: "vote_table c3 = [(0, 1), (1, 2), (2, 0)]"
    using cast_lynch_vote_first_table [of ?g2 2 1 1 ?m3 2]
    by (auto simp: print_votes_fields t2 h2 h simp del: One_nat_def)
  note f3 = cast_lynch_vote_frame [OF c3]
  let ?k = "set_is_alive
              ((send_message (print_votes c3) (ToChannel (gen_channel (print_votes c3)))
                  (if day_phase (print_votes c3) = ''Day''
                   then HasBeenLynched (user (player_heap (print_votes c3) 1))
                   else HasBeenKilled (user (player_heap (print_votes c3) 1))))
               \<lparr>list_heap :=
                   (list_heap (print_votes c3))
                     (alive (print_votes c3) :=
                        remove1 1 (list_heap (print_votes c3) (alive (print_votes c3))))\<rparr>)
              1 False"
  define K where "K = progress_day ?k"
  have r3: "vote_to_lynch ?g2 ?m3 = Inr K"
    unfolding K_def
    by (rule vote_to_lynch_fires [where p = 2 and u = 2 and us = "[]" and t = 1 and c = 2,
          OF _ _ _ _ _ _ c3])
       (simp_all add: print_votes_fields l2 h2 f3 t3 d h demo_lists_def del: One_nat_def)
  note k = check_target_fires_fields [of "print_votes c3" 1, folded K_def]
  have l3: "list_heap c3 = demo_lists" "alive c3 = 4"
    "players c3 = 4" "day_phase c3 = ''Day''"
    "day_num c3 = 1"
    "user_to_player c3 = user_to_player demo_day"
    by (simp_all add: print_votes_fields f3 l2 del: One_nat_def)
  have h3: "player_heap c3 =
              demo_heap(1 := (demo_heap 1)\<lparr>is_no_lynch := False, votes_for := Some 0\<rparr>,
                        0 := (demo_heap 0)\<lparr>is_no_lynch := False, votes_for := Some 1\<rparr>,
                        2 := (demo_heap 2)\<lparr>is_no_lynch := False, votes_for := Some 1\<rparr>)"
    by (simp add: print_votes_fields f3 h2 del: One_nat_def)
  have e: "day_phase ?g2 = ''Day''" "players_list ?g2 = [0, 1, 2]"
    "votes_for (player_heap ?g2 1) = Some 0" "day_num ?g2 = 1"
    by (simp_all add: print_votes_fields l2 h2 players_list_def demo_lists_def del: One_nat_def)
  have "day_phase K = ''Night''"
    "day_num K = 1"
    "\<not> is_alive (player_heap K 1)"
    "alive_list K = [0, 2]" "players_list K = [0, 2]"
    "map_of (user_to_player K) 2 = Some 1"
    "votes_for (player_heap K 1) = Some 0"
    "votes_for (player_heap K 0) = None"
    "votes_for (player_heap K 2) = None"
    by (simp_all add: k print_votes_fields l3 h3 d alive_list_def players_list_def
          demo_lists_def del: One_nat_def)
  with r1 r2 r3 e show ?thesis
    by (intro exI [of _ ?g1] exI [of _ ?g2] exI [of _ K]) (simp del: One_nat_def)
qed

subsection \<open>\<open>start_new_game\<close>\<close>

lemma init_game_fields:
  "timeout (init_game g) = timeout g"
  "outbox (init_game g) = outbox g"
  "slept (init_game g) = slept g"
  by (simp_all add: init_game_def new_list_def Let_def)

lemma add_players_fields:
  "timeout (fold (\<lambda>m g'. add_player g' m) us g) = timeout g"
  "outbox (fold (\<lambda>m g'. add_player g' m) us g) = outbox g"
  "slept (fold (\<lambda>m g'. add_player g' m) us g) = slept g"
  "gen_channel (fold (\<lambda>m g'. add_player g' m) us g) = gen_channel g"
  by (induction us arbitrary: g) (simp_all add: add_player_def Let_def)

lemma assign_role_slept:
  "slept (assign_role ps r g) = slept g" "timeout (assign_role ps r g) = timeout g"
  by (induction ps arbitrary: g) (simp_all add: set_role_def)

lemma pm_roles_slept:
  "slept (pm_roles ps g) = slept g" "timeout (pm_roles ps g) = timeout g"
  by (induction ps arbitrary: g) (simp_all add: send_message_def)

lemma send_allies_slept:
  "slept (send_allies ms g) = slept g" "timeout (send_allies ms g) = timeout g"
  by (induction ms arbitrary: g) (simp_all add: send_message_def Let_def)

lemma give_roles_slept:
  "slept (give_roles g rng) = slept g" "timeout (give_roles g rng) = timeout g"
  by (simp_all add: give_roles_def Let_def new_list_def send_message_def
        assign_role_heap assign_role_fields pm_roles_outbox send_allies_outbox
        assign_role_slept pm_roles_slept send_allies_slept cong: if_cong)

lemma give_roles_outbox_openings:
  "\<exists>later. outbox (give_roles g rng) = outbox g @ later
           \<and> (\<forall>dst d. (dst, Opening d) \<notin> set later)"
proof -
  let ?G = "give_roles g rng"
  let ?ps = "((list_heap g)
                (next_list g :=
                   random_sample rng (list_heap g (players g))
                     (nat (py_round (real (length (list_heap g (players g))) / 4))),
                 Suc (next_list g) :=
                   filter (\<lambda>p. p \<notin> set (random_sample rng (list_heap g (players g))
                              (nat (py_round (real (length (list_heap g (players g))) / 4)))))
                     (remdups (list_heap g (players g))))) (players g)"
  obtain later where l: "outbox ?G = outbox g @ later"
    and s: "set later \<subseteq>
              {(ToChannel (gen_channel g), AssigningRoles), (ToChannel (gen_channel g), PMingRoles)}
              \<union> range (\<lambda>p. (ToUser (user (player_heap ?G p)),
                                YouAreA (str_role (role (player_heap ?G p)))))
              \<union> range (\<lambda>al. (ToChannel (gen_channel g), YourAlliesAre al))"
    unfolding give_roles_fields(10) by (auto split: if_splits)
  have "\<forall>dst d. (dst, Opening d) \<notin> set later"
    using s by auto
  with l show ?thesis by blast
qed

lemma start_new_game_waits:
  assumes "\<not> is_ongoing g"
  shows "slept (start_new_game g message joined rng) =
           slept g @
             [if length (split_space (content message)) > 1
              then (case py_int (split_space (content message) ! 1) of
                      Some t \<Rightarrow> t | None \<Rightarrow> 0)
              else timeout g]"
    and "timeout (start_new_game g message joined rng) =
           (if length (split_space (content message)) > 1
            then (case py_int (split_space (content message) ! 1) of
                    Some t \<Rightarrow> t | None \<Rightarrow> 0)
            else timeout g)"
  using assms
  by (simp_all add: start_new_game_def Let_def progress_day_outbox give_roles_slept
        add_players_fields init_game_fields send_message_def split: option.splits)

lemma start_new_game_announces:
  assumes "\<not> is_ongoing g"
  shows "\<exists>later. outbox (start_new_game g message joined rng) =
                   outbox g @ (ToChannel (Some (channel message)), Opening (timeout g)) # later
               \<and> (\<forall>dst d. (dst, Opening d) \<notin> set later)"
proof -
  define g3 where "g3 =
     (let g1 = (init_game g)\<lparr>gen_channel := Some (channel message)\<rparr>;
          g2 = send_message g1 (ToChannel (gen_channel g1)) (Opening (timeout g1));
          args = split_space (content message)
      in if length args > 1
         then (case py_int (args ! 1) of
                 Some t \<Rightarrow> g2\<lparr>timeout := t\<rparr>
               | None \<Rightarrow> g2\<lparr>timeout := 0\<rparr>)
         else g2)"
  define g7 where "g7 =
     (let g4 = fold (\<lambda>m g'. add_player g' m) (mentions message) g3;
          g5 = g4\<lparr>slept := slept g4 @ [timeout g4]\<rparr>;
          g6 = fold (\<lambda>m g'. add_player g' m) joined g5
      in g6\<lparr>is_accepting := False\<rparr>)"
  have G: "start_new_game g message joined rng = progress_day (give_roles g7 rng)"
    using assms by (simp add: start_new_game_def g7_def g3_def Let_def)
  have o3: "outbox g3 =
              outbox g @ [(ToChannel (Some (channel message)), Opening (timeout g))]"
    by (simp add: g3_def Let_def send_message_def init_game_fields split: option.splits)
  have o7: "outbox g7 = outbox g3"
    by (simp add: g7_def Let_def add_players_fields)
  obtain later where l: "outbox (give_roles g7 rng) = outbox g7 @ later"
    and n: "\<forall>dst d. (dst, Opening d) \<notin> set later"
    using give_roles_outbox_openings [of g7 rng] by blast
  let ?last = "(ToChannel (gen_channel (give_roles g7 rng)),
                ItIsNow (if day_phase (give_roles g7 rng) = ''Day'' then ''Night'' else ''Day'')
                  (if day_phase (give_roles g7 rng) = ''Day'' then day_num (give_roles g7 rng)
                   else day_num (give_roles g7 rng) + 1))"
  have "outbox (start_new_game g message joined rng) =
          outbox g @ (ToChannel (Some (channel message)), Opening (timeout g))
            # (later @ [?last])"
    unfolding G progress_day_outbox(4) l o7 o3 by simp
  moreover have "\<forall>dst d. (dst, Opening d) \<notin> set (later @ [?last])"
    using n by simp
  ultimately show ?thesis by blast
qed

text \<open>
  C10. \<open>start_new_game\<close> on a game that is not ongoing, with a start message whose second
  word parses as the integer \<open>t\<close>. The first message it sends is the opening
  announcement, to the channel of the start message, and it quotes the \<open>timeout\<close> the game
  held before the call; no later message of the call is an opening announcement. The
  argument of \<open>asyncio.sleep\<close> is \<open>t\<close>, which is also the \<open>timeout\<close> the game holds
  afterwards. So when \<open>t\<close> differs from the stored timeout, the announced duration is not
  the duration waited.
\<close>

theorem start_new_game_announced_timeout:
  fixes g :: MafiaGame and message :: discord_message
    and joined :: "discord_user list" and rng :: random_source
  defines "G \<equiv> start_new_game g message joined rng"
  assumes "\<not> is_ongoing g"
      and "length (split_space (content message)) > 1"
      and "py_int (split_space (content message) ! 1) = Some t"
  shows
    "(\<exists>later. outbox G =
                 outbox g @ (ToChannel (Some (channel message)), Opening (timeout g)) # later
              \<and> (\<forall>dst d. (dst, Opening d) \<notin> set later))
     \<and> slept G = slept g @ [t]
     \<and> timeout G = t
     \<and> (t \<noteq> timeout g \<longrightarrow>
          (\<exists>announced waited.
              outbox G ! length (outbox g) =
                (ToChannel (Some (channel message)), Opening announced)
              \<and> last (slept G) = waited \<and> announced \<noteq> waited))"
proof -
  obtain later where l: "outbox G =
      outbox g @ (ToChannel (Some (channel message)), Opening (timeout g)) # later"
    and n: "\<forall>dst d. (dst, Opening d) \<notin> set later"
    unfolding G_def using start_new_game_announces [OF assms(2)] by blast
  have s: "slept G = slept g @ [t]" and t: "timeout G = t"
    unfolding G_def using assms(3,4) by (simp_all add: start_new_game_waits [OF assms(2)])
  have f: "outbox G ! length (outbox g) =
             (ToChannel (Some (channel message)), Opening (timeout g))"
    unfolding l by simp
  have "t \<noteq> timeout g \<longrightarrow>
          (\<exists>announced waited.
              outbox G ! length (outbox g) =
                (ToChannel (Some (channel message)), Opening announced)
              \<and> last (slept G) = waited \<and> announced \<noteq> waited)"
    using f s by auto
  with l n s t show ?thesis by blast
qed

lemma demo_start_parses:
  "split_space (content demo_start) = [''start'', ''30'']"
  "py_int ''30'' = Some 30"
  by (simp_all add: demo_start_def py_int_def py_strip_def is_space_def is_digit_def
        digit_val_def)

theorem start_new_game_announced_timeout_witness:
  "timeout MafiaGame_init = 10
   \<and> content demo_start = ''start 30''
   \<and> outbox (start_new_game MafiaGame_init demo_start [1, 2, 3] demo_rng) ! 0
       = (ToChannel (Some 7), Opening 10)
   \<and> slept (start_new_game MafiaGame_init demo_start [1, 2, 3] demo_rng) = [30]
   \<and> timeout (start_new_game MafiaGame_init demo_start [1, 2, 3] demo_rng) = 30"
proof -
  have a: "\<not> is_ongoing MafiaGame_init"
    by (simp add: MafiaGame_init_def)
  have b: "length (split_space (content demo_start)) > 1"
    unfolding demo_start_parses(1) by simp
  have c: "py_int (split_space (content demo_start) ! 1) = Some 30"
    unfolding demo_start_parses(1) by (simp add: demo_start_parses(2))
  note t = start_new_game_announced_timeout [OF a b c, of "[1, 2, 3]" demo_rng]
  have i: "timeout MafiaGame_init = 10" "outbox MafiaGame_init = []"
    "slept MafiaGame_init = []" "channel demo_start = 7" "content demo_start = ''start 30''"
    by (simp_all add: MafiaGame_init_def demo_start_def)
  obtain later where
    "outbox (start_new_game MafiaGame_init demo_start [1, 2, 3] demo_rng) =
       outbox MafiaGame_init
       @ (ToChannel (Some (channel demo_start)), Opening (timeout MafiaGame_init)) # later"
    using t by blast
  then have "outbox (start_new_game MafiaGame_init demo_start [1, 2, 3] demo_rng) ! 0
       = (ToChannel (Some 7), Opening 10)"
    by (simp add: i)
  moreover have "slept (start_new_game MafiaGame_init demo_start [1, 2, 3] demo_rng) = [30]"
    "timeout (start_new_game MafiaGame_init demo_start [1, 2, 3] demo_rng) = 30"
    using t by (simp_all add: i)
  ultimately show ?thesis using i by simp
qed

end
